theory Spec2Isabelle
  imports Complex_Main "HOL-Library.Multiset" "HOL-Library.Log_Nat"
begin

section \<open>The data document (data.json)\<close>

text \<open>
  JSON numbers are modelled as exact rationals; a JSON \<open>null\<close> inside a series is
  \<open>None\<close>. A property the script reads without checking that it exists is an
  \<open>option\<close> (\<open>None\<close> is JavaScript's \<open>undefined\<close>), so that the places where the
  script would throw a TypeError are branches of the model.
\<close>

type_synonym num = rat

type_synonym hours_series = "num option list"

record series_bundle =
  earnedHours :: "hours_series option"
  actualCost :: "hours_series option"
  dailyPlannedHours :: "hours_series option"
  earnedValue :: "hours_series option"
  plannedValue :: "hours_series option"

record sprint_record =
  dates :: "string list option"
  users :: "string list option"
  charts :: "(string \<times> series_bundle) list option"

text \<open>The document in the order of \<open>Object.keys\<close>; \<open>map_of\<close> is property lookup.\<close>

type_synonym dataset = "(string \<times> sprint_record) list"

section \<open>What the script hands to Chart.js and to the console\<close>

datatype jv =
    JUndefined
  | JNull
  | JBool bool
  | JNum num
  | JStr string
  | JArr "jv list"
  | JObj "(string \<times> jv) list"

datatype event =
    ChartNew nat jv
  | ChartDestroy nat
  | ChartClear nat
  | ConsoleError string

datatype error = TypeError string | Error string

fun error_message :: "error \<Rightarrow> string" where
  "error_message (TypeError m) = m"
| "error_message (Error m) = m"

section \<open>The select elements of the page\<close>

text \<open>
  A single-choice \<open>select\<close>: its options as (value, text) pairs and its
  \<open>selectedIndex\<close>, which is \<open>-1\<close> when nothing is selected.
\<close>

record select_el =
  options :: "(string \<times> string) list"
  selectedIndex :: int

definition selected_option :: "select_el \<Rightarrow> (string \<times> string) option" where
  "selected_option e =
     (if 0 \<le> selectedIndex e \<and> selectedIndex e < int (length (options e))
      then Some (options e ! nat (selectedIndex e)) else None)"

definition select_value :: "select_el \<Rightarrow> string" where
  "select_value e = (case selected_option e of None \<Rightarrow> [] | Some opt \<Rightarrow> fst opt)"

definition clear_options :: "select_el \<Rightarrow> select_el" where
  \<comment> \<open>\<open>innerHTML = ''\<close>\<close>
  "clear_options e = e\<lparr>options := [], selectedIndex := - 1\<rparr>"

definition appendChild :: "string \<times> string \<Rightarrow> select_el \<Rightarrow> select_el" where
  \<comment> \<open>inserting an option into a single-choice select with no selected option selects
      the first option\<close>
  "appendChild opt e =
     e\<lparr>options := options e @ [opt],
       selectedIndex := (if selected_option e = None then 0 else selectedIndex e)\<rparr>"

fun first_index :: "('a \<Rightarrow> bool) \<Rightarrow> 'a list \<Rightarrow> int" where
  "first_index P [] = - 1"
| "first_index P (x # xs) =
     (if P x then 0 else (let i = first_index P xs in if i < 0 then - 1 else i + 1))"

definition set_value :: "string \<Rightarrow> select_el \<Rightarrow> select_el" where
  \<comment> \<open>the \<open>value\<close> setter: the first option with that value, or none\<close>
  "set_value v e = e\<lparr>selectedIndex := first_index (\<lambda>opt. fst opt = v) (options e)\<rparr>"

section \<open>The state of the page\<close>

record app_state =
  burnupChart :: "nat option"
  fullData :: "dataset option"
  viewSelector :: string
  sprintControls_display :: string
  sprintFilter :: select_el
  userFilter :: select_el
  chartContainer_innerHTML :: "string option"
  listening :: bool
  chartsCreated :: nat
  trace :: "event list"

definition console_error :: "string \<Rightarrow> app_state \<Rightarrow> app_state" where
  "console_error msg s = s\<lparr>trace := trace s @ [ConsoleError msg]\<rparr>"

definition clear_if_chart :: "app_state \<Rightarrow> app_state" where
  \<comment> \<open>\<open>if(state.burnupChart) state.burnupChart.clear();\<close>\<close>
  "clear_if_chart s =
     (case burnupChart s of None \<Rightarrow> s | Some c \<Rightarrow> s\<lparr>trace := trace s @ [ChartClear c]\<rparr>)"

definition destroy_if_chart :: "app_state \<Rightarrow> app_state" where
  \<comment> \<open>\<open>if (state.burnupChart) state.burnupChart.destroy();\<close>\<close>
  "destroy_if_chart s =
     (case burnupChart s of None \<Rightarrow> s | Some c \<Rightarrow> s\<lparr>trace := trace s @ [ChartDestroy c]\<rparr>)"

definition new_Chart :: "jv \<Rightarrow> app_state \<Rightarrow> app_state" where
  \<comment> \<open>\<open>state.burnupChart = new Chart(elements.chartCanvas, config)\<close>: a fresh instance\<close>
  "new_Chart config s =
     s\<lparr>burnupChart := Some (chartsCreated s),
       chartsCreated := Suc (chartsCreated s),
       trace := trace s @ [ChartNew (chartsCreated s) config]\<rparr>"

section \<open>populateSprintFilter\<close>

definition isDigit :: "char \<Rightarrow> bool" where
  "isDigit c = (c \<in> set ''0123456789'')"

definition first_digits :: "string \<Rightarrow> string option" where
  \<comment> \<open>\<open>a.match(/\d+/)?.[0]\<close>: the first, longest run of digits\<close>
  "first_digits a =
     (let m = takeWhile isDigit (dropWhile (\<lambda>c. \<not> isDigit c) a)
      in if m = [] then None else Some m)"

text \<open>
  A JavaScript Number, as far as this script meets one: an integer-valued double, an
  infinity, or NaN. \<open>to_double\<close> is the conversion of an exact integer to the nearest
  double, ties to the even significand; from \<open>2 ^ 1024 - 2 ^ 970\<close> on it overflows.
\<close>

datatype number = Finite int | PosInfinity | NegInfinity | NaN

definition round_pos :: "int \<Rightarrow> number" where
  \<comment> \<open>for an integer that is not negative; \<open>q\<close> keeps its 53 leading bits\<close>
  "round_pos m =
     (if m < 2 ^ 53 then Finite m
      else (let e = nat (bitlen m - 53);
                q = m div 2 ^ e;
                r = m mod 2 ^ e;
                q' = (if 2 * r > 2 ^ e \<or> (2 * r = 2 ^ e \<and> odd q) then q + 1 else q);
                v = q' * 2 ^ e
            in if v \<ge> 2 ^ 1024 then PosInfinity else Finite v))"

fun negate :: "number \<Rightarrow> number" where
  "negate (Finite v) = Finite (- v)"
| "negate PosInfinity = NegInfinity"
| "negate NegInfinity = PosInfinity"
| "negate NaN = NaN"

definition to_double :: "int \<Rightarrow> number" where
  "to_double d = (if d < 0 then negate (round_pos (- d)) else round_pos d)"

fun num_minus :: "number \<Rightarrow> number \<Rightarrow> number" where
  "num_minus (Finite a) (Finite b) = to_double (a - b)"
| "num_minus NaN y = NaN"
| "num_minus x NaN = NaN"
| "num_minus PosInfinity PosInfinity = NaN"
| "num_minus NegInfinity NegInfinity = NaN"
| "num_minus PosInfinity y = PosInfinity"
| "num_minus NegInfinity y = NegInfinity"
| "num_minus (Finite a) PosInfinity = NegInfinity"
| "num_minus (Finite a) NegInfinity = PosInfinity"

definition mathInt :: "string \<Rightarrow> int" where
  \<comment> \<open>the integer a run of decimal digits denotes\<close>
  "mathInt m = foldl (\<lambda>acc c. acc * 10 + (int (of_char c) - 48)) 0 m"

definition parseInt :: "string \<Rightarrow> number" where
  \<comment> \<open>\<open>parseInt\<close> of a non-empty run of digits: the Number for its integer value,
      the exact value rounded once\<close>
  "parseInt m = to_double (mathInt m)"

definition sprintNum :: "string \<Rightarrow> number" where
  \<comment> \<open>\<open>parseInt(a.match(/\d+/)?.[0] || -1)\<close>\<close>
  "sprintNum a = (case first_digits a of None \<Rightarrow> Finite (- 1) | Some m \<Rightarrow> parseInt m)"

definition sprintCompare :: "string \<Rightarrow> string \<Rightarrow> number" where
  "sprintCompare a b = (let numA = sprintNum a; numB = sprintNum b in num_minus numA numB)"

text \<open>
  \<open>Array.prototype.sort\<close> with a comparator is a stable sort: an insertion sort that
  puts an element before the first one it does not compare greater than. A comparator
  result that is NaN counts as 0.
\<close>

fun not_positive :: "number \<Rightarrow> bool" where
  "not_positive (Finite v) = (v \<le> 0)"
| "not_positive PosInfinity = False"
| "not_positive NegInfinity = True"
| "not_positive NaN = True"

fun insert_cmp :: "('a \<Rightarrow> 'a \<Rightarrow> number) \<Rightarrow> 'a \<Rightarrow> 'a list \<Rightarrow> 'a list" where
  "insert_cmp cmp x [] = [x]"
| "insert_cmp cmp x (y # ys) =
     (if not_positive (cmp x y) then x # y # ys else y # insert_cmp cmp x ys)"

definition array_sort :: "('a \<Rightarrow> 'a \<Rightarrow> number) \<Rightarrow> 'a list \<Rightarrow> 'a list" where
  "array_sort cmp xs = foldr (insert_cmp cmp) xs []"

definition populateSprintFilter :: "string list \<Rightarrow> app_state \<Rightarrow> app_state" where
  "populateSprintFilter sprintNames s =
     (let cleared = clear_options (sprintFilter s);
          sortedNames = array_sort sprintCompare sprintNames;
          filled = fold (\<lambda>name. appendChild (name, name)) sortedNames cleared
      in s\<lparr>sprintFilter :=
             (if length sortedNames > 0
              then filled\<lparr>selectedIndex := int (length sortedNames) - 1\<rparr>
              else filled)\<rparr>)"

section \<open>populateUserFilter\<close>

definition populateUserFilter :: "string list option \<Rightarrow> app_state \<Rightarrow> app_state" where
  "populateUserFilter usersArg s =
     (let userList = (case usersArg of None \<Rightarrow> [] | Some us \<Rightarrow> us);
          currentUser = select_value (userFilter s);
          cleared = clear_options (userFilter s);
          withOverall = appendChild (''overall'', ''Overall Team'') cleared;
          filled = fold (\<lambda>user. appendChild (user, user)) userList withOverall
      in s\<lparr>userFilter :=
             (if \<exists>opt \<in> set (options filled). fst opt = currentUser
              then set_value currentUser filled
              else filled)\<rparr>)"

definition user_options :: "string list option \<Rightarrow> (string \<times> string) list" where
  "user_options us =
     (''overall'', ''Overall Team'') # map (\<lambda>u. (u, u)) (case us of None \<Rightarrow> [] | Some l \<Rightarrow> l)"

section \<open>drawChart\<close>

definition chartOptions :: "string \<Rightarrow> string \<Rightarrow> jv" where
  "chartOptions chartTitle yAxisLabel =
     JObj [
       (''responsive'', JBool True), (''maintainAspectRatio'', JBool False),
       (''interaction'', JObj [(''mode'', JStr ''index''), (''intersect'', JBool False)]),
       (''plugins'', JObj [
          (''title'', JObj [(''display'', JBool True), (''text'', JStr chartTitle),
             (''color'', JStr ''#f9fafb''),
             (''font'', JObj [(''size'', JNum 18), (''weight'', JStr ''600'')])]),
          (''legend'', JObj [(''labels'', JObj [(''color'', JStr ''#e5e7eb''),
             (''font'', JObj [(''size'', JNum 14)])])]),
          (''tooltip'', JObj [
             (''backgroundColor'', JStr ''rgba(20, 26, 39, 0.8)''),
             (''titleColor'', JStr ''#f9fafb''), (''bodyColor'', JStr ''#e5e7eb''),
             (''borderColor'', JStr ''rgba(255, 255, 255, 0.1)''),
             (''borderWidth'', JNum 1), (''padding'', JNum 10),
             (''displayColors'', JBool True), (''boxPadding'', JNum 4)])]),
       (''scales'', JObj [
          (''x'', JObj [(''ticks'', JObj [(''color'', JStr ''#9ca3af'')]),
             (''grid'', JObj [(''color'', JStr ''rgba(255, 255, 255, 0.1)'')])]),
          (''y'', JObj [
             (''type'', JStr ''linear''), (''position'', JStr ''left''), (''min'', JNum 0),
             (''title'', JObj [(''display'', JBool True), (''text'', JStr yAxisLabel),
                (''color'', JStr ''#d1d5db''),
                (''font'', JObj [(''size'', JNum 14), (''weight'', JStr ''bold'')])]),
             (''ticks'', JObj [(''color'', JStr ''#9ca3af'')]),
             (''grid'', JObj [(''color'', JStr ''rgba(255, 255, 255, 0.1)'')])])])]"

definition series_jv :: "hours_series option \<Rightarrow> jv" where
  "series_jv xs =
     (case xs of None \<Rightarrow> JUndefined
      | Some vs \<Rightarrow> JArr (map (\<lambda>v. case v of None \<Rightarrow> JNull | Some x \<Rightarrow> JNum x) vs))"

definition labels_jv :: "string list option \<Rightarrow> jv" where
  "labels_jv ds = (case ds of None \<Rightarrow> JUndefined | Some xs \<Rightarrow> JArr (map JStr xs))"

text \<open>
  \<open>charts\<close> is a plain object, so \<open>charts[userKey]\<close> also finds what every object
  inherits from \<open>Object.prototype\<close>: a function, or for \<open>__proto__\<close> the prototype
  itself. Such a value is truthy and has none of the series properties.
\<close>

definition object_prototype_keys :: "string list" where
  "object_prototype_keys =
     [''constructor'', ''toString'', ''toLocaleString'', ''valueOf'', ''hasOwnProperty'',
      ''isPrototypeOf'', ''propertyIsEnumerable'', ''__proto__'', ''__defineGetter__'',
      ''__defineSetter__'', ''__lookupGetter__'', ''__lookupSetter__'']"

definition inherited_value :: series_bundle where
  "inherited_value =
     \<lparr>earnedHours = None, actualCost = None, dailyPlannedHours = None,
      earnedValue = None, plannedValue = None\<rparr>"

definition lookup_bundle :: "sprint_record option \<Rightarrow> string \<Rightarrow> series_bundle option" where
  \<comment> \<open>\<open>sprintData?.charts?.[userKey]\<close>\<close>
  "lookup_bundle sprintData userKey =
     (case sprintData of None \<Rightarrow> None
      | Some r \<Rightarrow>
          (case charts r of None \<Rightarrow> None
           | Some cs \<Rightarrow>
               (case map_of cs userKey of
                  Some b \<Rightarrow> Some b
                | None \<Rightarrow>
                    if userKey \<in> set object_prototype_keys then Some inherited_value
                    else None)))"

definition finalPlanned_of :: "hours_series \<Rightarrow> num" where
  \<comment> \<open>\<open>plannedHoursData[plannedHoursData.length - 1] || 0\<close>: \<open>undefined\<close>, \<open>null\<close> and
      \<open>0\<close> are falsy\<close>
  "finalPlanned_of plannedHoursData =
     (if plannedHoursData = [] then 0
      else (case last plannedHoursData of None \<Rightarrow> 0 | Some v \<Rightarrow> if v = 0 then 0 else v))"

definition idealBurnupData :: "string list \<Rightarrow> num \<Rightarrow> num list" where
  "idealBurnupData ds finalPlanned =
     map (\<lambda>index. if length ds \<le> 1 then 0
                   else (finalPlanned / of_nat (length ds - 1)) * of_nat index)
       [0 ..< length ds]"

definition non_null :: "hours_series \<Rightarrow> num list" where
  \<comment> \<open>\<open>.filter(v => v != null)\<close>\<close>
  "non_null vs = map the (filter (\<lambda>v. v \<noteq> None) vs)"

definition math_max0 :: "num list \<Rightarrow> num" where
  \<comment> \<open>\<open>Math.max(0, ...vs)\<close>\<close>
  "math_max0 vs = fold max vs 0"

definition yAxisTop_of :: "hours_series \<Rightarrow> hours_series \<Rightarrow> num" where
  "yAxisTop_of plannedHoursData earned =
     (let maxPlanned = math_max0 (non_null plannedHoursData);
          maxEarned = math_max0 (non_null earned)
      in of_int (\<lceil>max maxPlanned maxEarned * (105 / 100) / 50\<rceil>) * 50)"

definition drawChart ::
  "sprint_record option \<Rightarrow> string \<Rightarrow> string \<Rightarrow> bool \<Rightarrow> app_state \<Rightarrow> error option \<times> app_state"
where
  "drawChart sprintData userKey chartTitle showIdeal s =
     (case lookup_bundle sprintData userKey of
        None \<Rightarrow>
          (None, console_error (''Chart data not found for user: '' @ userKey) (clear_if_chart s))
      | Some chartData \<Rightarrow>
          (case dates (the sprintData) of
             None \<Rightarrow> (Some (TypeError ''dates is undefined''), s)
           | Some ds \<Rightarrow>
               (case earnedHours chartData of
                  None \<Rightarrow> (Some (TypeError ''earnedHours is undefined''), s)
                | Some earned \<Rightarrow>
                    (let plannedHoursData =
                           (case dailyPlannedHours chartData of None \<Rightarrow> [] | Some p \<Rightarrow> p);
                         finalPlanned = finalPlanned_of plannedHoursData;
                         idealData = idealBurnupData ds finalPlanned;
                         yAxisTop = yAxisTop_of plannedHoursData earned;
                         datasets =
                           [JObj [(''label'', JStr ''Earned Hours''),
                                  (''data'', series_jv (Some earned)),
                                  (''borderColor'', JStr ''#38bdf8''),
                                  (''backgroundColor'', JStr ''rgba(56, 189, 248, 0.2)''),
                                  (''fill'', JBool True), (''tension'', JNum (1 / 10))],
                            JObj [(''label'', JStr ''Actual Cost''),
                                  (''data'', series_jv (actualCost chartData)),
                                  (''borderColor'', JStr ''#f43f5e''),
                                  (''fill'', JBool False), (''tension'', JNum (1 / 10))],
                            JObj [(''label'', JStr ''Total Planned Hours''),
                                  (''data'', series_jv (Some plannedHoursData)),
                                  (''borderColor'', JStr ''#34d399''),
                                  (''borderDash'', JArr [JNum 5, JNum 5]),
                                  (''fill'', JBool False), (''pointRadius'', JNum 0),
                                  (''steppped'', JBool True)]]
                           @ (if showIdeal
                              then [JObj [(''label'', JStr ''Ideal Burn-up''),
                                          (''data'', JArr (map JNum idealData)),
                                          (''borderColor'', JStr ''#facc15''),
                                          (''borderDash'', JArr [JNum 5, JNum 5]),
                                          (''fill'', JBool False), (''pointRadius'', JNum 0)]]
                              else [])
                     in (None,
                         new_Chart
                           (JObj [(''type'', JStr ''line''),
                                  (''data'', JObj [(''labels'', labels_jv (Some ds)),
                                                   (''datasets'', JArr datasets)]),
                                  (''options'', chartOptions chartTitle ''Hours'')])
                           (destroy_if_chart s))))))"

section \<open>drawEvPvChart\<close>

definition drawEvPvChart :: "sprint_record option \<Rightarrow> string \<Rightarrow> app_state \<Rightarrow> app_state" where
  "drawEvPvChart evPvData chartTitle s =
     (case lookup_bundle evPvData ''overall'' of
        None \<Rightarrow> console_error ''EV/PV data not found.'' (destroy_if_chart s)
      | Some overall \<Rightarrow>
          new_Chart
            (JObj [(''type'', JStr ''line''),
                   (''data'', JObj [
                      (''labels'', labels_jv (dates (the evPvData))),
                      (''datasets'', JArr [
                         JObj [(''label'', JStr ''Earned Value (EV)''),
                               (''data'', series_jv (earnedValue overall)),
                               (''borderColor'', JStr ''#38bdf8''),
                               (''backgroundColor'', JStr ''rgba(56, 189, 248, 0.2)''),
                               (''fill'', JBool True), (''tension'', JNum (1 / 10))],
                         JObj [(''label'', JStr ''Planned Value (PV)''),
                               (''data'', series_jv (plannedValue overall)),
                               (''borderColor'', JStr ''#34d399''),
                               (''fill'', JBool False), (''tension'', JNum (1 / 10))]])]),
                   (''options'', chartOptions chartTitle ''Cumulative Story Points'')])
            (destroy_if_chart s))"

section \<open>updateSprintDashboard and handleViewChange\<close>

definition sprint_not_found :: "string \<Rightarrow> string" where
  "sprint_not_found selectedSprint =
     ''Data for sprint '' @ [CHR 0x22] @ selectedSprint @ [CHR 0x22] @ '' not found.''"

definition updateSprintDashboard :: "app_state \<Rightarrow> error option \<times> app_state" where
  "updateSprintDashboard s =
     (let selectedSprint = select_value (sprintFilter s) in
      if selectedSprint = []
      then (None, console_error (sprint_not_found selectedSprint) (clear_if_chart s))
      else
        (case fullData s of
           None \<Rightarrow> (Some (TypeError ''state.fullData is null''), s)
         | Some d \<Rightarrow>
             (case map_of d selectedSprint of
                None \<Rightarrow> (None, console_error (sprint_not_found selectedSprint) (clear_if_chart s))
              | Some sprintData \<Rightarrow>
                  (let s1 = populateUserFilter (users sprintData) s;
                       selectedUser = select_value (userFilter s1)
                   in case selected_option (userFilter s1) of
                        None \<Rightarrow> (Some (TypeError ''selected option is undefined''), s1)
                      | Some opt \<Rightarrow>
                          drawChart (Some sprintData) selectedUser
                            (''Burn-Up: '' @ select_value (sprintFilter s1) @ '' - '' @ snd opt)
                            True s1))))"

definition handleViewChange :: "app_state \<Rightarrow> error option \<times> app_state" where
  "handleViewChange s =
     (let selectedView = viewSelector s;
          s0 = s\<lparr>sprintControls_display := ''none''\<rparr>
      in if selectedView = ''ev_pv''
         then (case fullData s0 of
                 None \<Rightarrow> (Some (TypeError ''state.fullData is null''), s0)
               | Some d \<Rightarrow>
                   (case map_of d ''EV/PV'' of
                      None \<Rightarrow> (None, s0)
                    | Some evPv \<Rightarrow>
                        (None,
                         drawEvPvChart (Some evPv)
                           ''Performance: Earned Value vs. Planned Value (All Time)'' s0)))
         else updateSprintDashboard (s0\<lparr>sprintControls_display := ''flex''\<rparr>))"

section \<open>initializeDashboard\<close>

text \<open>What the fetch of data.json delivered: the awaited response, or its rejection.\<close>

datatype json_body = Unparsable string | JsonNull | Document dataset

datatype fetch_result = Rejected string | Response bool json_body

definition error_html :: "string \<Rightarrow> string" where
  "error_html msg =
     ''<p style='' @ [CHR 0x22] @ ''color: #f43f5e; text-align: center;'' @ [CHR 0x22]
       @ ''>'' @ msg @ ''</p>''"

definition init_failed :: "string \<Rightarrow> app_state \<Rightarrow> app_state" where
  \<comment> \<open>the \<open>catch\<close> block\<close>
  "init_failed msg s =
     (console_error (''Error initializing dashboard: '' @ msg) s)
       \<lparr>chartContainer_innerHTML := Some (error_html msg)\<rparr>"

definition data_empty_message :: string where
  "data_empty_message =
     ''data.json is empty or invalid. Please run the Python script to generate data.''"

definition initializeDashboard :: "fetch_result \<Rightarrow> app_state \<Rightarrow> app_state" where
  "initializeDashboard r s =
     (case r of
        Rejected msg \<Rightarrow> init_failed msg s
      | Response ok body \<Rightarrow>
          if \<not> ok
          then init_failed ''data.json not found. Please run the Python script first.'' s
          else
            (case body of
               Unparsable msg \<Rightarrow> init_failed msg s
             | JsonNull \<Rightarrow> init_failed data_empty_message (s\<lparr>fullData := None\<rparr>)
             | Document d \<Rightarrow>
                 (let s1 = s\<lparr>fullData := Some d\<rparr> in
                  if length (map fst d) = 0 then init_failed data_empty_message s1
                  else
                    (let sprintNames =
                           filter (\<lambda>name. name \<noteq> ''All Time'' \<and> name \<noteq> ''EV/PV'') (map fst d);
                         s2 = populateSprintFilter sprintNames s1
                     in case handleViewChange s2 of
                          (Some e, s3) \<Rightarrow> init_failed (error_message e) s3
                        | (None, s3) \<Rightarrow> s3\<lparr>listening := True\<rparr>))))"

section \<open>The page as a whole\<close>

definition empty_select :: select_el where
  "empty_select = \<lparr>options = [], selectedIndex = - 1\<rparr>"

definition initial_state :: "string \<Rightarrow> app_state" where
  \<comment> \<open>the page as loaded, with the view selector showing \<open>view\<close>\<close>
  "initial_state view =
     \<lparr>burnupChart = None, fullData = None, viewSelector = view,
      sprintControls_display = [], sprintFilter = empty_select, userFilter = empty_select,
      chartContainer_innerHTML = None, listening = False, chartsCreated = 0, trace = []\<rparr>"

datatype ui_event = ViewSelected string | SprintSelected nat | UserSelected nat

definition pick :: "nat \<Rightarrow> select_el \<Rightarrow> select_el" where
  \<comment> \<open>the user picks one of the options shown\<close>
  "pick i e = (if i < length (options e) then e\<lparr>selectedIndex := int i\<rparr> else e)"

definition dispatch :: "ui_event \<Rightarrow> app_state \<Rightarrow> app_state" where
  \<comment> \<open>a change event; a handler that throws leaves the state as it was at the throw\<close>
  "dispatch ev s =
     (case ev of
        ViewSelected v \<Rightarrow>
          (let s1 = s\<lparr>viewSelector := v\<rparr>
           in if listening s then snd (handleViewChange s1) else s1)
      | SprintSelected i \<Rightarrow>
          (let s1 = s\<lparr>sprintFilter := pick i (sprintFilter s)\<rparr>
           in if listening s then snd (updateSprintDashboard s1) else s1)
      | UserSelected i \<Rightarrow>
          (let s1 = s\<lparr>userFilter := pick i (userFilter s)\<rparr>
           in if listening s then snd (updateSprintDashboard s1) else s1))"

definition run :: "string \<Rightarrow> fetch_result \<Rightarrow> ui_event list \<Rightarrow> app_state" where
  "run view r evs = fold dispatch evs (initializeDashboard r (initial_state view))"

section \<open>Observations on the trace and on a chart configuration\<close>

fun live_step :: "event \<Rightarrow> nat set \<Rightarrow> nat set" where
  "live_step (ChartNew i config) L = insert i L"
| "live_step (ChartDestroy i) L = L - {i}"
| "live_step (ChartClear i) L = L"
| "live_step (ConsoleError msg) L = L"

definition live :: "event list \<Rightarrow> nat set" where
  \<comment> \<open>the chart instances constructed and not destroyed\<close>
  "live tr = fold live_step tr {}"

fun configs :: "event list \<Rightarrow> jv list" where
  "configs [] = []"
| "configs (ChartNew i config # es) = config # configs es"
| "configs (e # es) = configs es"

fun console_errors :: "event list \<Rightarrow> string list" where
  "console_errors [] = []"
| "console_errors (ConsoleError msg # es) = msg # console_errors es"
| "console_errors (e # es) = console_errors es"

definition emitted :: "app_state \<Rightarrow> app_state \<Rightarrow> event list" where
  \<comment> \<open>the events added between two states\<close>
  "emitted s s' = drop (length (trace s)) (trace s')"

fun jprop :: "string \<Rightarrow> jv \<Rightarrow> jv" where
  "jprop k (JObj kvs) = (case map_of kvs k of None \<Rightarrow> JUndefined | Some v \<Rightarrow> v)"
| "jprop k v = JUndefined"

fun jelements :: "jv \<Rightarrow> jv list" where
  "jelements (JArr vs) = vs"
| "jelements v = []"

definition dataset_data :: "string \<Rightarrow> jv \<Rightarrow> jv list" where
  \<comment> \<open>the \<open>data\<close> of the datasets of a configuration that carry the label\<close>
  "dataset_data label config =
     map (jprop ''data'')
       (filter (\<lambda>d. jprop ''label'' d = JStr label)
          (jelements (jprop ''datasets'' (jprop ''data'' config))))"

definition y_scale :: "jv \<Rightarrow> jv" where
  "y_scale config = jprop ''y'' (jprop ''scales'' (jprop ''options'' config))"

definition lastPlannedValue :: "hours_series \<Rightarrow> num" where
  \<comment> \<open>the final element as a number (\<open>null\<close> counts as 0), 0 for the empty series\<close>
  "lastPlannedValue p = (if p = [] then 0 else (case last p of None \<Rightarrow> 0 | Some v \<Rightarrow> v))"

section \<open>Names for the objects the draw functions build\<close>

definition burnup_config :: "string list \<Rightarrow> series_bundle \<Rightarrow> string \<Rightarrow> bool \<Rightarrow> jv" where
  \<comment> \<open>the configuration \<open>drawChart\<close> passes to \<open>new Chart\<close>\<close>
  "burnup_config ds chartData chartTitle showIdeal =
     JObj [(''type'', JStr ''line''),
           (''data'', JObj [
              (''labels'', JArr (map JStr ds)),
              (''datasets'', JArr (
                 [JObj [(''label'', JStr ''Earned Hours''),
                        (''data'', series_jv (earnedHours chartData)),
                        (''borderColor'', JStr ''#38bdf8''),
                        (''backgroundColor'', JStr ''rgba(56, 189, 248, 0.2)''),
                        (''fill'', JBool True), (''tension'', JNum (1 / 10))],
                  JObj [(''label'', JStr ''Actual Cost''),
                        (''data'', series_jv (actualCost chartData)),
                        (''borderColor'', JStr ''#f43f5e''),
                        (''fill'', JBool False), (''tension'', JNum (1 / 10))],
                  JObj [(''label'', JStr ''Total Planned Hours''),
                        (''data'', series_jv (Some (case dailyPlannedHours chartData of
                                                     None \<Rightarrow> [] | Some p \<Rightarrow> p))),
                        (''borderColor'', JStr ''#34d399''),
                        (''borderDash'', JArr [JNum 5, JNum 5]),
                        (''fill'', JBool False), (''pointRadius'', JNum 0),
                        (''steppped'', JBool True)]]
                 @ (if showIdeal
                    then [JObj [(''label'', JStr ''Ideal Burn-up''),
                                (''data'', JArr (map JNum
                                   (idealBurnupData ds
                                      (finalPlanned_of (case dailyPlannedHours chartData of
                                                          None \<Rightarrow> [] | Some p \<Rightarrow> p))))),
                                (''borderColor'', JStr ''#facc15''),
                                (''borderDash'', JArr [JNum 5, JNum 5]),
                                (''fill'', JBool False), (''pointRadius'', JNum 0)]]
                    else [])))]),
           (''options'', chartOptions chartTitle ''Hours'')]"

definition burnup_title :: "app_state \<Rightarrow> string" where
  \<comment> \<open>the title \<open>updateSprintDashboard\<close> builds from the two selectors\<close>
  "burnup_title s =
     ''Burn-Up: '' @ select_value (sprintFilter s) @ '' - ''
       @ (case selected_option (userFilter s) of None \<Rightarrow> [] | Some opt \<Rightarrow> snd opt)"

definition cleared :: "app_state \<Rightarrow> event list" where
  "cleared s = (case burnupChart s of None \<Rightarrow> [] | Some c \<Rightarrow> [ChartClear c])"

definition destroyed :: "app_state \<Rightarrow> event list" where
  "destroyed s = (case burnupChart s of None \<Rightarrow> [] | Some c \<Rightarrow> [ChartDestroy c])"

section \<open>A sample document\<close>

definition ex_bundle :: series_bundle where
  "ex_bundle =
     \<lparr>earnedHours = Some [Some 0, None, Some 30, Some 60, Some 90],
      actualCost = Some [Some 0, Some 20, Some 40, Some 70, Some 95],
      dailyPlannedHours = Some [Some 100, Some 100, Some 100, Some 100, Some 100],
      earnedValue = None, plannedValue = None\<rparr>"

definition ex_sprint :: sprint_record where
  "ex_sprint =
     \<lparr>dates = Some [''05-01'', ''05-02'', ''05-03'', ''05-04'', ''05-05''],
      users = Some [''ann''],
      charts = Some [(''overall'', ex_bundle)]\<rparr>"

definition ex_data :: dataset where
  \<comment> \<open>three sprints and the all-time record; no \<open>EV/PV\<close> record; no series for ann\<close>
  "ex_data =
     [(''Sprint 2'', ex_sprint), (''Sprint 10'', ex_sprint), (''Sprint 1'', ex_sprint),
      (''All Time'', ex_sprint)]"



definition ex_state_loaded :: app_state where
  \<comment> \<open>the page after loading the sample document\<close>
  "ex_state_loaded = run ''sprint'' (Response True (Document ex_data)) []"



fun without_config :: "event \<Rightarrow> event" where
  "without_config (ChartNew i config) = ChartNew i JUndefined"
| "without_config e = e"

section \<open>Comparing Numbers\<close>

fun rank :: "number \<Rightarrow> int" where
  \<comment> \<open>a place on the integer line for each Number but NaN, in the order of \<open><\<close>\<close>
  "rank (Finite v) = v"
| "rank PosInfinity = 2 ^ 1024"
| "rank NegInfinity = - (2 ^ 1024)"
| "rank NaN = 0"

fun number_le :: "number \<Rightarrow> number \<Rightarrow> bool" where
  \<comment> \<open>JavaScript's \<open><=\<close> on Numbers\<close>
  "number_le NaN y = False"
| "number_le x NaN = False"
| "number_le x y = (rank x \<le> rank y)"

definition digit_run_value :: "string \<Rightarrow> int" where
  \<comment> \<open>the integer value of the first run of digits of a name, -1 when it has none\<close>
  "digit_run_value a = (case first_digits a of None \<Rightarrow> - 1 | Some m \<Rightarrow> mathInt m)"

section \<open>One chart at a time\<close>

definition one_at_a_time :: "event list \<Rightarrow> bool" where
  \<comment> \<open>at every moment of the trace at most one instance is live, and none is when a new
      one is constructed\<close>
  "one_at_a_time tr \<longleftrightarrow>
     (\<forall>n. card (live (take n tr)) \<le> 1)
     \<and> (\<forall>pre i config post. tr = pre @ ChartNew i config # post \<longrightarrow> live pre = {})"

definition chart_inv :: "app_state \<Rightarrow> bool" where
  "chart_inv s \<longleftrightarrow> one_at_a_time (trace s) \<and> live (trace s) \<subseteq> set_option (burnupChart s)"

section \<open>The sprint selector\<close>

lemma round_pos_range:
  assumes "0 \<le> m"
  shows "(\<exists>v. round_pos m = Finite v \<and> 0 \<le> v \<and> v < 2 ^ 1024 \<and> (0 < m \<longrightarrow> 0 < v))
         \<or> (round_pos m = PosInfinity \<and> 0 < m)"
proof (cases "m < 2 ^ 53")
  case True
  have "(2::int) ^ 53 < 2 ^ 1024" by simp
  with True assms show ?thesis by (simp add: round_pos_def)
next
  case False
  then have pos: "0 < m" by (smt (verit) zero_less_power)
  define e where "e = nat (bitlen m - 53)"
  define q where "q = m div 2 ^ e"
  define q' where "q' = (if 2 * (m mod 2 ^ e) > 2 ^ e \<or> (2 * (m mod 2 ^ e) = 2 ^ e \<and> odd q)
      then q + 1 else q)"
  have a: "(2::int) ^ nat (bitlen m - 1) \<le> m"
    using bitlen_bounds [OF pos] by simp
  have b: "(2::int) ^ e \<le> 2 ^ nat (bitlen m - 1)"
    unfolding e_def by (rule power_increasing) simp_all
  from b a have "(2::int) ^ e \<le> m" by (rule order_trans)
  then have "0 < m div 2 ^ e"
    by (simp add: pos_imp_zdiv_pos_iff)
  then have "1 \<le> q"
    unfolding q_def by simp
  then have "1 \<le> q'" by (simp add: q'_def)
  then have v: "0 < q' * 2 ^ e" by simp
  have r: "round_pos m = (if q' * 2 ^ e \<ge> 2 ^ 1024 then PosInfinity else Finite (q' * 2 ^ e))"
    using False by (simp add: round_pos_def Let_def e_def q_def q'_def)
  show ?thesis
    using v pos unfolding r by (cases "q' * 2 ^ e \<ge> 2 ^ 1024") simp_all
qed

lemma to_double_sign: "not_positive (to_double d) \<longleftrightarrow> d \<le> 0"
proof (cases "d < 0")
  case True
  then have "0 \<le> - d" "0 < - d" by simp_all
  from round_pos_range [OF this(1)] this(2) True show ?thesis
    by (auto simp: to_double_def)
next
  case False
  show ?thesis
  proof (cases "d = 0")
    case True
    then show ?thesis by (simp add: to_double_def round_pos_def)
  next
    case nz: False
    with False have "0 \<le> d" "0 < d" by simp_all
    from round_pos_range [OF this(1)] this(2) show ?thesis
      by (auto simp: to_double_def)
  qed
qed

lemma to_double_exact: "0 \<le> d \<Longrightarrow> d < 2 ^ 53 \<Longrightarrow> to_double d = Finite d"
  by (simp add: to_double_def round_pos_def)

lemma to_double_range:
  "0 \<le> d \<Longrightarrow> (\<exists>v. to_double d = Finite v \<and> 0 \<le> v \<and> v < 2 ^ 1024) \<or> to_double d = PosInfinity"
  using round_pos_range [of d] by (auto simp: to_double_def)

lemma isDigit_value: "isDigit c \<Longrightarrow> 48 \<le> int (of_char c)"
  by (auto simp: isDigit_def)

lemma foldl_digits_nonneg:
  "\<forall>c \<in> set m. isDigit c \<Longrightarrow> 0 \<le> acc \<Longrightarrow>
     0 \<le> foldl (\<lambda>acc c. acc * 10 + (int (of_char c) - 48)) acc m"
proof (induction m arbitrary: acc)
  case Nil
  then show ?case by simp
next
  case (Cons c m)
  have "48 \<le> int (of_char c)" using Cons.prems by (intro isDigit_value) simp
  with Cons.prems have "0 \<le> acc * 10 + (int (of_char c) - 48)" by simp
  with Cons show ?case by simp
qed

lemma mathInt_nonneg: "\<forall>c \<in> set m. isDigit c \<Longrightarrow> 0 \<le> mathInt m"
  by (simp add: mathInt_def foldl_digits_nonneg)

lemma first_digits_digits: "first_digits a = Some m \<Longrightarrow> \<forall>c \<in> set m. isDigit c"
  by (auto simp: first_digits_def Let_def split: if_splits dest: set_takeWhileD)

lemma digit_run_value_ge: "- 1 \<le> digit_run_value a"
proof (cases "first_digits a")
  case None
  then show ?thesis by (simp add: digit_run_value_def)
next
  case (Some m)
  from mathInt_nonneg [OF first_digits_digits [OF Some]] Some show ?thesis
    by (simp add: digit_run_value_def)
qed

lemma sprintNum_digit_run:
  "sprintNum a = (if digit_run_value a < 0 then Finite (- 1) else to_double (digit_run_value a))"
proof (cases "first_digits a")
  case None
  then show ?thesis by (simp add: sprintNum_def digit_run_value_def)
next
  case (Some m)
  from mathInt_nonneg [OF first_digits_digits [OF Some]] Some show ?thesis
    by (simp add: sprintNum_def digit_run_value_def parseInt_def)
qed

lemma sprintNum_range:
  "(\<exists>v. sprintNum a = Finite v \<and> - 1 \<le> v \<and> v < 2 ^ 1024) \<or> sprintNum a = PosInfinity"
proof (cases "digit_run_value a < 0")
  case True
  then show ?thesis by (simp add: sprintNum_digit_run)
next
  case False
  then have "0 \<le> digit_run_value a" by simp
  from to_double_range [OF this] False show ?thesis
    by (auto simp: sprintNum_digit_run)
qed

lemma sprintNum_exact:
  "digit_run_value a < 2 ^ 53 \<Longrightarrow> sprintNum a = Finite (digit_run_value a)"
  using digit_run_value_ge [of a]
  by (cases "digit_run_value a < 0") (simp_all add: sprintNum_digit_run to_double_exact)

lemma sprintCompare_rank:
  "not_positive (sprintCompare x y) \<longleftrightarrow> rank (sprintNum x) \<le> rank (sprintNum y)"
  using sprintNum_range [of x] sprintNum_range [of y]
  by (auto simp: sprintCompare_def to_double_sign)

lemma number_le_rank:
  "number_le (sprintNum x) (sprintNum y) \<longleftrightarrow> rank (sprintNum x) \<le> rank (sprintNum y)"
  using sprintNum_range [of x] sprintNum_range [of y] by auto

lemma insert_cmp_insort:
  "insert_cmp sprintCompare x ys = insort_key (\<lambda>a. rank (sprintNum a)) x ys"
  by (induction ys) (simp_all add: sprintCompare_rank)

lemma array_sort_sort_key:
  "array_sort sprintCompare xs = sort_key (\<lambda>a. rank (sprintNum a)) xs"
  by (induction xs) (simp_all add: array_sort_def sort_key_def insert_cmp_insort)

lemma selected_option_clear: "selected_option (clear_options e) = None"
  by (simp add: selected_option_def clear_options_def)

lemma options_fold_append:
  "options (fold (\<lambda>n. appendChild (f n)) ns e) = options e @ map f ns"
  by (induction ns arbitrary: e) (simp_all add: appendChild_def)

lemma appendChild_selected:
  "selected_option (appendChild x e) \<noteq> None"
  "selectedIndex (appendChild x e) = (if selected_option e = None then 0 else selectedIndex e)"
  by (auto simp: appendChild_def selected_option_def)

lemma selectedIndex_fold_append:
  "selectedIndex (fold (\<lambda>n. appendChild (f n)) ns e) =
     (if selected_option e = None \<and> ns \<noteq> [] then 0 else selectedIndex e)"
proof (induction ns arbitrary: e)
  case Nil
  then show ?case by simp
next
  case (Cons n ns)
  show ?case
    by (simp add: Cons.IH appendChild_selected)
qed

lemma first_digits_no_digit:
  "\<forall>c \<in> set a. \<not> isDigit c \<Longrightarrow> first_digits a = None"
proof -
  assume "\<forall>c \<in> set a. \<not> isDigit c"
  then have d: "dropWhile (\<lambda>c. \<not> isDigit c) a = []"
    by (simp add: dropWhile_eq_Nil_conv)
  show ?thesis
    by (simp add: first_digits_def d)
qed

lemma first_digits_run:
  assumes "\<forall>c \<in> set pre. \<not> isDigit c" "ds \<noteq> []" "\<forall>c \<in> set ds. isDigit c"
    and "rest = [] \<or> \<not> isDigit (hd rest)"
  shows "first_digits (pre @ ds @ rest) = Some ds"
proof -
  have "dropWhile (\<lambda>c. \<not> isDigit c) (pre @ ds @ rest) = ds @ rest"
    using assms(1,2,3) by (cases ds) (simp_all add: dropWhile_append)
  moreover have "takeWhile isDigit (ds @ rest) = ds"
    using assms(3,4) by (cases rest) (simp_all add: takeWhile_append)
  ultimately show ?thesis using assms(2) by (simp add: first_digits_def)
qed

lemma insort_key_not_Nil: "insort_key f x ys \<noteq> []"
  by (cases ys) auto

lemma sort_key_Nil_iff: "sort_key f xs = [] \<longleftrightarrow> xs = []"
  by (cases xs) (auto simp: insort_key_not_Nil)

lemma filter_sort_key_refines:
  assumes "\<And>x. P x \<Longrightarrow> f x = k"
  shows "filter P (sort_key f xs) = filter P xs"
proof -
  have "filter P ys = filter P (filter (\<lambda>y. f y = k) ys)" for ys
    using assms by (auto intro: filter_cong)
  then have "filter P (sort_key f xs) = filter P (filter (\<lambda>y. f y = k) (sort_key f xs))"
    and "filter P xs = filter P (filter (\<lambda>y. f y = k) xs)"
    by blast+
  then show ?thesis
    by (simp only: sort_key_stable)
qed

text \<open>
  C3, as amended: populateSprintFilter lists the sprint names ascending by the Number
  that parseInt returns for the first run of digits of each name, which is the integer
  value of the run rounded to the nearest double and so the integer value itself below
  2^53; a name with no digit counts as -1. Names with the same Number keep the order
  they came in, and when there is a name at all the last option of that order is the
  selected one. When every name's integer value is below 2^53 the options are ascending
  by integer value and names with the same integer value keep their order.
\<close>

theorem populateSprintFilter_order:
  "options (sprintFilter (populateSprintFilter names s)) =
     map (\<lambda>n. (n, n)) (map fst (options (sprintFilter (populateSprintFilter names s))))
   \<and> mset (map fst (options (sprintFilter (populateSprintFilter names s)))) = mset names
   \<and> sorted_wrt (\<lambda>a b. number_le (sprintNum a) (sprintNum b))
        (map fst (options (sprintFilter (populateSprintFilter names s))))
   \<and> (\<forall>k. filter (\<lambda>n. sprintNum n = k)
             (map fst (options (sprintFilter (populateSprintFilter names s))))
          = filter (\<lambda>n. sprintNum n = k) names)
   \<and> (names \<noteq> [] \<longrightarrow>
        selected_option (sprintFilter (populateSprintFilter names s))
          = Some (last (options (sprintFilter (populateSprintFilter names s)))))
   \<and> (\<forall>a. sprintNum a = (if digit_run_value a < 0 then Finite (- 1)
                          else to_double (digit_run_value a)))
   \<and> (\<forall>a. digit_run_value a < 2 ^ 53 \<longrightarrow> sprintNum a = Finite (digit_run_value a))
   \<and> ((\<forall>n \<in> set names. digit_run_value n < 2 ^ 53) \<longrightarrow>
        sorted (map digit_run_value
          (map fst (options (sprintFilter (populateSprintFilter names s)))))
        \<and> (\<forall>k. filter (\<lambda>n. digit_run_value n = k)
                 (map fst (options (sprintFilter (populateSprintFilter names s))))
               = filter (\<lambda>n. digit_run_value n = k) names))
   \<and> (\<forall>a. (\<forall>c \<in> set a. \<not> isDigit c) \<longrightarrow> digit_run_value a = - 1)
   \<and> (\<forall>pre ds rest. (\<forall>c \<in> set pre. \<not> isDigit c) \<and> ds \<noteq> [] \<and> (\<forall>c \<in> set ds. isDigit c)
          \<and> (rest = [] \<or> \<not> isDigit (hd rest))
        \<longrightarrow> digit_run_value (pre @ ds @ rest) = mathInt ds)"
proof -
  let ?e = "sprintFilter (populateSprintFilter names s)"
  let ?key = "\<lambda>a. rank (sprintNum a)"
  let ?r = "sort_key ?key names"
  have opts: "options ?e = map (\<lambda>n. (n, n)) ?r"
    by (simp add: populateSprintFilter_def Let_def array_sort_sort_key options_fold_append
        clear_options_def)
  have names: "map fst (options ?e) = ?r"
    by (simp add: opts comp_def)
  have sel: "names \<noteq> [] \<Longrightarrow> selectedIndex ?e = int (length ?r) - 1"
    by (simp add: populateSprintFilter_def Let_def array_sort_sort_key sort_key_Nil_iff)
  have last: "names \<noteq> [] \<Longrightarrow> selected_option ?e = Some (last (options ?e))"
  proof -
    assume ne: "names \<noteq> []"
    then have "options ?e \<noteq> []" by (simp add: opts sort_key_Nil_iff)
    moreover have "selectedIndex ?e = int (length (options ?e)) - 1"
      using sel [OF ne] by (simp add: opts)
    ultimately show ?thesis
      by (simp add: selected_option_def last_conv_nth nat_diff_distrib')
  qed
  have c1: "options ?e = map (\<lambda>n. (n, n)) (map fst (options ?e))"
    by (simp add: opts comp_def)
  have c2: "mset ?r = mset names"
    by simp
  have "sorted (map ?key ?r)"
    by (rule sorted_sort_key)
  then have c3: "sorted_wrt (\<lambda>a b. number_le (sprintNum a) (sprintNum b)) ?r"
    by (simp only: sorted_map number_le_rank)
  have c4: "\<forall>k. filter (\<lambda>n. sprintNum n = k) ?r = filter (\<lambda>n. sprintNum n = k) names"
    by (intro allI filter_sort_key_refines) simp
  have c6: "\<forall>a. sprintNum a = (if digit_run_value a < 0 then Finite (- 1)
                          else to_double (digit_run_value a))"
    by (intro allI sprintNum_digit_run)
  have c7: "\<forall>a. digit_run_value a < 2 ^ 53 \<longrightarrow> sprintNum a = Finite (digit_run_value a)"
    by (simp add: sprintNum_exact)
  have c8: "sorted (map digit_run_value ?r)
        \<and> (\<forall>k. filter (\<lambda>n. digit_run_value n = k) ?r = filter (\<lambda>n. digit_run_value n = k) names)"
    if small: "\<forall>n \<in> set names. digit_run_value n < 2 ^ 53"
  proof -
    have key: "?key n = digit_run_value n" if "n \<in> set names" for n
      using small that by (simp add: sprintNum_exact)
    have "set ?r = set names" by simp
    then have "map ?key ?r = map digit_run_value ?r"
      by (intro map_cong) (simp_all add: key)
    with \<open>sorted (map ?key ?r)\<close> have s: "sorted (map digit_run_value ?r)" by simp
    have "filter (\<lambda>n. digit_run_value n = k) ?r = filter (\<lambda>n. digit_run_value n = k) names" for k
    proof -
      have "filter (\<lambda>n. digit_run_value n = k) ?r = filter (\<lambda>n. ?key n = k) ?r"
        by (intro filter_cong) (simp_all add: key)
      also have "\<dots> = filter (\<lambda>n. ?key n = k) names"
        by (rule sort_key_stable)
      also have "\<dots> = filter (\<lambda>n. digit_run_value n = k) names"
        by (intro filter_cong) (simp_all add: key)
      finally show ?thesis .
    qed
    with s show ?thesis by blast
  qed
  have c9: "\<forall>a. (\<forall>c \<in> set a. \<not> isDigit c) \<longrightarrow> digit_run_value a = - 1"
    by (simp add: digit_run_value_def first_digits_no_digit)
  have c10: "\<forall>pre ds rest. (\<forall>c \<in> set pre. \<not> isDigit c) \<and> ds \<noteq> []
      \<and> (\<forall>c \<in> set ds. isDigit c) \<and> (rest = [] \<or> \<not> isDigit (hd rest))
      \<longrightarrow> digit_run_value (pre @ ds @ rest) = mathInt ds"
    by (simp add: digit_run_value_def first_digits_run)
  show ?thesis
    unfolding names
    using c1 [unfolded names] c2 c3 c4 last c6 c7 c8 c9 c10 by blast
qed

theorem populateSprintFilter_order_witness:
  "[''Sprint 2'', ''Sprint 10'', ''Sprint 1''] \<noteq> []
   \<and> digit_run_value ''Sprint 2'' < 2 ^ 53 \<and> digit_run_value ''Sprint 10'' < 2 ^ 53
   \<and> digit_run_value ''Sprint 1'' < 2 ^ 53
   \<and> map fst (options (sprintFilter (populateSprintFilter
       [''Sprint 2'', ''Sprint 10'', ''Sprint 1''] (initial_state ''sprint''))))
     = [''Sprint 1'', ''Sprint 2'', ''Sprint 10'']
   \<and> sorted (map digit_run_value (map fst (options (sprintFilter (populateSprintFilter
       [''Sprint 2'', ''Sprint 10'', ''Sprint 1''] (initial_state ''sprint''))))))
   \<and> selected_option (sprintFilter (populateSprintFilter
       [''Sprint 2'', ''Sprint 10'', ''Sprint 1''] (initial_state ''sprint'')))
     = Some (''Sprint 10'', ''Sprint 10'')
   \<and> sprintNum ''Sprint 10'' = Finite 10
   \<and> digit_run_value ''All Time'' = - 1 \<and> digit_run_value ''Sprint 10'' = 10"
proof -
  let ?names = "[''Sprint 2'', ''Sprint 10'', ''Sprint 1'']"
  let ?e = "sprintFilter (populateSprintFilter ?names (initial_state ''sprint''))"
  note inst = populateSprintFilter_order [of ?names "initial_state ''sprint''"]
  have ord: "map fst (options ?e) = [''Sprint 1'', ''Sprint 2'', ''Sprint 10'']"
    by code_simp
  have ne: "?names \<noteq> []" by simp
  have v: "digit_run_value ''Sprint 2'' = 2" "digit_run_value ''Sprint 1'' = 1"
    by code_simp+
  from inst ne
  have "options ?e = map (\<lambda>n. (n, n)) (map fst (options ?e))"
    and "selected_option ?e = Some (last (options ?e))"
    by blast+
  then have sel: "selected_option ?e = Some (''Sprint 10'', ''Sprint 10'')"
    using ord by simp
  have "\<forall>c \<in> set ''All Time''. \<not> isDigit c"
    by (simp add: isDigit_def)
  with inst have nall: "digit_run_value ''All Time'' = - 1"
    by blast
  have "(\<forall>c \<in> set ''Sprint ''. \<not> isDigit c) \<and> ''10'' \<noteq> [] \<and> (\<forall>c \<in> set ''10''. isDigit c)
      \<and> (([]::string) = [] \<or> \<not> isDigit (hd []))"
    by (simp add: isDigit_def)
  with inst have "digit_run_value (''Sprint '' @ ''10'' @ []) = mathInt ''10''"
    by blast
  then have n10: "digit_run_value ''Sprint 10'' = 10"
    by (simp add: mathInt_def)
  have small: "\<forall>n \<in> set ?names. digit_run_value n < 2 ^ 53"
    by (simp add: v n10)
  with inst have srt: "sorted (map digit_run_value (map fst (options ?e)))"
    by blast
  have "digit_run_value ''Sprint 10'' < 2 ^ 53" by (simp add: n10)
  with inst have "sprintNum ''Sprint 10'' = Finite (digit_run_value ''Sprint 10'')"
    by blast
  then have d10: "sprintNum ''Sprint 10'' = Finite 10" by (simp add: n10)
  from small have "digit_run_value ''Sprint 2'' < 2 ^ 53 \<and> digit_run_value ''Sprint 10'' < 2 ^ 53
      \<and> digit_run_value ''Sprint 1'' < 2 ^ 53"
    by simp
  with ne ord srt sel d10 nall n10 show ?thesis
    by blast
qed

text \<open>
  C3 as stated fails: 9007199254740993 and 9007199254740992 are the same double, so the
  comparator returns 0, the two names keep their input order, which is descending by
  integer value, and the selected last option is the lower-numbered name.
\<close>

theorem populateSprintFilter_order_beyond_doubles:
  "digit_run_value ''Sprint 9007199254740993'' = 9007199254740993
   \<and> digit_run_value ''Sprint 9007199254740992'' = 9007199254740992
   \<and> sprintNum ''Sprint 9007199254740993'' = Finite 9007199254740992
   \<and> sprintNum ''Sprint 9007199254740992'' = Finite 9007199254740992
   \<and> sprintCompare ''Sprint 9007199254740993'' ''Sprint 9007199254740992'' = Finite 0
   \<and> map fst (options (sprintFilter (populateSprintFilter
        [''Sprint 9007199254740993'', ''Sprint 9007199254740992''] (initial_state ''sprint''))))
      = [''Sprint 9007199254740993'', ''Sprint 9007199254740992'']
   \<and> selected_option (sprintFilter (populateSprintFilter
        [''Sprint 9007199254740993'', ''Sprint 9007199254740992''] (initial_state ''sprint'')))
      = Some (''Sprint 9007199254740992'', ''Sprint 9007199254740992'')"
  by code_simp

section \<open>The user selector\<close>

lemma first_index_found:
  "\<exists>x \<in> set xs. P x \<Longrightarrow>
     0 \<le> first_index P xs \<and> first_index P xs < int (length xs) \<and> P (xs ! nat (first_index P xs))"
proof (induction xs)
  case Nil
  then show ?case by simp
next
  case (Cons x xs)
  show ?case
  proof (cases "P x")
    case True
    then show ?thesis by simp
  next
    case False
    with Cons.prems have "\<exists>x \<in> set xs. P x" by simp
    from Cons.IH [OF this] False show ?thesis
      by (simp add: Let_def nat_add_distrib)
  qed
qed

lemma fold_users:
  "fold (\<lambda>user. appendChild (user, user)) (case us of None \<Rightarrow> [] | Some l \<Rightarrow> l)
     (appendChild (''overall'', ''Overall Team'') (clear_options e))
   = \<lparr>options = user_options us, selectedIndex = 0\<rparr>"
  by (rule select_el.equality)
    (simp_all add: options_fold_append selectedIndex_fold_append appendChild_selected
      selected_option_clear user_options_def,
     simp add: appendChild_def clear_options_def)

lemma userFilter_populate:
  "userFilter (populateUserFilter us s) =
     \<lparr>options = user_options us,
      selectedIndex =
        (if \<exists>opt \<in> set (user_options us). fst opt = select_value (userFilter s)
         then first_index (\<lambda>opt. fst opt = select_value (userFilter s)) (user_options us)
         else 0)\<rparr>"
  by (simp add: populateUserFilter_def Let_def fold_users set_value_def)

lemma selected_first_index:
  assumes "\<exists>opt \<in> set opts. fst opt = v"
  shows "select_value \<lparr>options = opts, selectedIndex = first_index (\<lambda>opt. fst opt = v) opts\<rparr> = v"
    and "selected_option \<lparr>options = opts, selectedIndex = first_index (\<lambda>opt. fst opt = v) opts\<rparr>
         = Some (opts ! nat (first_index (\<lambda>opt. fst opt = v) opts))"
  using first_index_found [OF assms] by (simp_all add: select_value_def selected_option_def)

lemma user_options_first:
  "select_value \<lparr>options = user_options us, selectedIndex = 0\<rparr> = ''overall''"
  "selected_option \<lparr>options = user_options us, selectedIndex = 0\<rparr> = Some (''overall'', ''Overall Team'')"
  by (simp_all add: select_value_def selected_option_def user_options_def)

lemma populateUserFilter_selected:
  "\<exists>opt. selected_option (userFilter (populateUserFilter us s)) = Some opt"
  by (simp add: userFilter_populate selected_first_index user_options_first)


section \<open>Drawing and the missing-data paths\<close>

lemma finalPlanned_last: "finalPlanned_of p = lastPlannedValue p"
  by (simp add: finalPlanned_of_def lastPlannedValue_def split: option.splits)

lemma drawChart_missing:
  "lookup_bundle sd u = None \<Longrightarrow>
     drawChart sd u t i s =
       (None, s\<lparr>trace := trace s @ cleared s @ [ConsoleError (''Chart data not found for user: '' @ u)]\<rparr>)"
  by (simp add: drawChart_def console_error_def clear_if_chart_def cleared_def
      split: option.splits)

lemma drawChart_draws:
  "lookup_bundle (Some r) u = Some b \<Longrightarrow> dates r = Some ds \<Longrightarrow> earnedHours b = Some eh \<Longrightarrow>
     drawChart (Some r) u t i s =
       (None, s\<lparr>burnupChart := Some (chartsCreated s),
                 chartsCreated := Suc (chartsCreated s),
                 trace := trace s @ destroyed s @ [ChartNew (chartsCreated s) (burnup_config ds b t i)]\<rparr>)"
  by (simp add: drawChart_def Let_def new_Chart_def destroy_if_chart_def destroyed_def
      burnup_config_def labels_jv_def split: option.splits)

lemma dataset_data_ideal:
  "dataset_data ''Ideal Burn-up'' (burnup_config ds b t True) =
     [JArr (map JNum (idealBurnupData ds
        (finalPlanned_of (case dailyPlannedHours b of None \<Rightarrow> [] | Some p \<Rightarrow> p))))]"
  by (simp add: dataset_data_def burnup_config_def)

lemma emitted_append: "emitted s (s'\<lparr>trace := trace s @ es\<rparr>) = es"
  by (simp add: emitted_def)


lemma configs_append: "configs (xs @ ys) = configs xs @ configs ys"
  by (induction xs rule: configs.induct) simp_all

lemma configs_destroyed: "configs (destroyed s) = []"
  by (simp add: destroyed_def split: option.splits)

lemma configs_cleared: "configs (cleared s) = []"
  by (simp add: cleared_def split: option.splits)

lemma nth_idealBurnupData:
  "i < length ds \<Longrightarrow>
     idealBurnupData ds fp ! i =
       (if length ds \<le> 1 then 0 else (fp / of_nat (length ds - 1)) * of_nat i)"
  by (simp add: idealBurnupData_def)

text \<open>
  C1: when drawChart draws, the configuration it hands to the chart library carries one
  dataset labelled "Ideal Burn-up"; its data has one value per date, and the value at
  index i is 0 when there is at most one date and otherwise
  (lastPlannedValue / (N - 1)) * i, where lastPlannedValue is the final element of
  dailyPlannedHours and 0 when that series is empty (or absent).
\<close>

theorem ideal_burnup_linear:
  assumes "lookup_bundle (Some r) u = Some b" and "dates r = Some ds"
    and "earnedHours b = Some eh"
  shows "map (dataset_data ''Ideal Burn-up'')
           (configs (emitted s (snd (drawChart (Some r) u t True s))))
         = [[JArr (map JNum (idealBurnupData ds
               (finalPlanned_of (case dailyPlannedHours b of None \<Rightarrow> [] | Some p \<Rightarrow> p))))]]
       \<and> length (idealBurnupData ds
            (finalPlanned_of (case dailyPlannedHours b of None \<Rightarrow> [] | Some p \<Rightarrow> p)))
          = length ds
       \<and> (\<forall>i < length ds.
            idealBurnupData ds
              (finalPlanned_of (case dailyPlannedHours b of None \<Rightarrow> [] | Some p \<Rightarrow> p)) ! i
            = (if length ds \<le> 1 then 0
               else (lastPlannedValue (case dailyPlannedHours b of None \<Rightarrow> [] | Some p \<Rightarrow> p)
                       / of_nat (length ds - 1)) * of_nat i))"
proof -
  have "configs (emitted s (snd (drawChart (Some r) u t True s))) = [burnup_config ds b t True]"
    by (simp add: drawChart_draws [OF assms] emitted_append configs_append configs_destroyed)
  then show ?thesis
    by (simp add: dataset_data_ideal nth_idealBurnupData finalPlanned_last)
      (simp add: idealBurnupData_def)
qed

theorem ideal_burnup_linear_witness:
  "lookup_bundle (Some ex_sprint) ''overall'' = Some ex_bundle
   \<and> dates ex_sprint = Some [''05-01'', ''05-02'', ''05-03'', ''05-04'', ''05-05'']
   \<and> earnedHours ex_bundle = Some [Some 0, None, Some 30, Some 60, Some 90]
   \<and> map (dataset_data ''Ideal Burn-up'')
        (configs (emitted (initial_state ''sprint'')
           (snd (drawChart (Some ex_sprint) ''overall'' ''Burn-Up'' True (initial_state ''sprint'')))))
      = [[JArr [JNum 0, JNum 25, JNum 50, JNum 75, JNum 100]]]
   \<and> (3::nat) < length [''05-01'', ''05-02'', ''05-03'', ''05-04'', ''05-05'']
   \<and> idealBurnupData [''05-01'', ''05-02'', ''05-03'', ''05-04'', ''05-05'']
        (finalPlanned_of (case dailyPlannedHours ex_bundle of None \<Rightarrow> [] | Some p \<Rightarrow> p)) ! 3
      = (100 / 4) * 3"
proof -
  let ?ds = "[''05-01'', ''05-02'', ''05-03'', ''05-04'', ''05-05'']"
  let ?p = "case dailyPlannedHours ex_bundle of None \<Rightarrow> [] | Some p \<Rightarrow> p"
  have h1: "lookup_bundle (Some ex_sprint) ''overall'' = Some ex_bundle"
    by (simp add: lookup_bundle_def ex_sprint_def)
  have h2: "dates ex_sprint = Some ?ds"
    by (simp add: ex_sprint_def)
  have h3: "earnedHours ex_bundle = Some [Some 0, None, Some 30, Some 60, Some 90]"
    by (simp add: ex_bundle_def)
  have v: "idealBurnupData ?ds (finalPlanned_of ?p) = [0, 25, 50, 75, 100]"
    by code_simp
  have l: "lastPlannedValue ?p = 100"
    by (simp add: lastPlannedValue_def ex_bundle_def)
  have i: "(3::nat) < length ?ds" by simp
  note inst = ideal_burnup_linear [OF h1 h2 h3, of "initial_state ''sprint''" "''Burn-Up''"]
  from inst have "\<forall>i < length ?ds. idealBurnupData ?ds (finalPlanned_of ?p) ! i
      = (if length ?ds \<le> 1 then 0
         else (lastPlannedValue ?p / of_nat (length ?ds - 1)) * of_nat i)"
    by blast
  with i have "idealBurnupData ?ds (finalPlanned_of ?p) ! 3
      = (if length ?ds \<le> 1 then 0 else (lastPlannedValue ?p / of_nat (length ?ds - 1)) * of_nat 3)"
    by blast
  then have n: "idealBurnupData ?ds (finalPlanned_of ?p) ! 3 = (100 / 4) * 3"
    by (simp add: l)
  from inst have "map (dataset_data ''Ideal Burn-up'')
        (configs (emitted (initial_state ''sprint'')
           (snd (drawChart (Some ex_sprint) ''overall'' ''Burn-Up'' True (initial_state ''sprint'')))))
      = [[JArr (map JNum (idealBurnupData ?ds (finalPlanned_of ?p)))]]"
    by blast
  then have c: "map (dataset_data ''Ideal Burn-up'')
        (configs (emitted (initial_state ''sprint'')
           (snd (drawChart (Some ex_sprint) ''overall'' ''Burn-Up'' True (initial_state ''sprint'')))))
      = [[JArr [JNum 0, JNum 25, JNum 50, JNum 75, JNum 100]]]"
    by (simp add: v)
  from h1 h2 h3 c i n show ?thesis
    by blast
qed

lemma updateSprintDashboard_missing:
  assumes "fullData s = Some d" and "map_of d (select_value (sprintFilter s)) = None"
  shows "updateSprintDashboard s =
           (None, s\<lparr>trace := trace s @ cleared s
               @ [ConsoleError (sprint_not_found (select_value (sprintFilter s)))]\<rparr>)"
  using assms
  by (simp add: updateSprintDashboard_def Let_def console_error_def clear_if_chart_def
      cleared_def split: option.splits)

lemma populateUserFilter_frame:
  "burnupChart (populateUserFilter us s) = burnupChart s"
  "fullData (populateUserFilter us s) = fullData s"
  "sprintFilter (populateUserFilter us s) = sprintFilter s"
  "trace (populateUserFilter us s) = trace s"
  "chartsCreated (populateUserFilter us s) = chartsCreated s"
  "viewSelector (populateUserFilter us s) = viewSelector s"
  "listening (populateUserFilter us s) = listening s"
  by (simp_all add: populateUserFilter_def Let_def)

lemma updateSprintDashboard_found:
  assumes "fullData s = Some d" and "map_of d (select_value (sprintFilter s)) = Some r"
    and "select_value (sprintFilter s) \<noteq> []"
  shows "updateSprintDashboard s =
           drawChart (Some r) (select_value (userFilter (populateUserFilter (users r) s)))
             (burnup_title (populateUserFilter (users r) s)) True
             (populateUserFilter (users r) s)"
proof -
  obtain opt where "selected_option (userFilter (populateUserFilter (users r) s)) = Some opt"
    using populateUserFilter_selected [of "users r" s] by auto
  then show ?thesis
    using assms
    by (simp add: updateSprintDashboard_def Let_def burnup_title_def populateUserFilter_frame)
qed




lemma lookup_bundle_None_iff:
  "lookup_bundle (Some r) u = None \<longleftrightarrow>
     charts r = None
     \<or> (\<exists>cs. charts r = Some cs \<and> map_of cs u = None \<and> u \<notin> set object_prototype_keys)"
  by (auto simp: lookup_bundle_def split: option.splits)

text \<open>
  A user key that \<open>charts\<close> only inherits is not a missing key for \<open>drawChart\<close>: the
  guard passes, and the draw throws where it reads the series.
\<close>

lemma drawChart_inherited_key:
  assumes "charts r = Some cs" and "map_of cs u = None" and "u \<in> set object_prototype_keys"
  shows "\<exists>e. drawChart (Some r) u t i s = (Some e, s)"
proof -
  have "lookup_bundle (Some r) u = Some inherited_value"
    using assms by (simp add: lookup_bundle_def)
  then show ?thesis
    by (cases "dates r") (simp_all add: drawChart_def inherited_value_def)
qed




lemma handleViewChange_evpv_absent:
  assumes "fullData s = Some d" and "map_of d ''EV/PV'' = None" and "viewSelector s = ''ev_pv''"
  shows "handleViewChange s = (None, s\<lparr>sprintControls_display := ''none''\<rparr>)"
  using assms by (simp add: handleViewChange_def Let_def)

lemma drawEvPvChart_undefined:
  "drawEvPvChart None t s = console_error ''EV/PV data not found.'' (destroy_if_chart s)"
  by (simp add: drawEvPvChart_def lookup_bundle_def)

text \<open>
  C5: the code does not do what the claim says. With the sample document, which has no
  "EV/PV" record, selecting the EV/PV view draws no chart, but it also logs nothing and
  shows no message: the burn-up chart drawn before stays live and referenced while the
  sprint controls are hidden. drawEvPvChart would destroy the chart and log
  "EV/PV data not found." for an undefined record, but handleViewChange does not call it
  when the record is absent.
\<close>

theorem evpv_absent_not_reported:
  "map_of ex_data ''EV/PV'' = None
   \<and> console_errors (trace (run ''sprint'' (Response True (Document ex_data)) [ViewSelected ''ev_pv''])) = []
   \<and> map without_config (trace (run ''sprint'' (Response True (Document ex_data)) [ViewSelected ''ev_pv'']))
       = [ChartNew 0 JUndefined]
   \<and> chartContainer_innerHTML (run ''sprint'' (Response True (Document ex_data)) [ViewSelected ''ev_pv''])
       = None
   \<and> sprintControls_display (run ''sprint'' (Response True (Document ex_data)) [ViewSelected ''ev_pv''])
       = ''none''
   \<and> burnupChart (run ''sprint'' (Response True (Document ex_data)) [ViewSelected ''ev_pv'']) = Some 0
   \<and> live (trace (run ''sprint'' (Response True (Document ex_data)) [ViewSelected ''ev_pv''])) = {0}
   \<and> emitted ex_state_loaded (drawEvPvChart None ''Performance'' ex_state_loaded)
       = [ChartDestroy 0, ConsoleError ''EV/PV data not found.'']"
  by code_simp

text \<open>
  C8: when the fetched document is empty, initializeDashboard stores it, logs the error
  and replaces the chart container by the "data.json is empty or invalid" message; on
  the page as loaded neither selector has an option, no chart exists and no listener is
  registered.
\<close>

theorem empty_document_short_circuits:
  "initializeDashboard (Response True (Document [])) s =
     s\<lparr>fullData := Some [],
       chartContainer_innerHTML := Some (error_html data_empty_message),
       trace := trace s @ [ConsoleError (''Error initializing dashboard: '' @ data_empty_message)]\<rparr>
   \<and> options (sprintFilter (initializeDashboard (Response True (Document [])) (initial_state view))) = []
   \<and> options (userFilter (initializeDashboard (Response True (Document [])) (initial_state view))) = []
   \<and> burnupChart (initializeDashboard (Response True (Document [])) (initial_state view)) = None
   \<and> \<not> listening (initializeDashboard (Response True (Document [])) (initial_state view))"
  by (simp add: initializeDashboard_def init_failed_def console_error_def initial_state_def
      empty_select_def)



section \<open>At most one live chart\<close>

lemma live_snoc: "live (tr @ [e]) = live_step e (live tr)"
  by (simp add: live_def)

lemma one_at_a_time_Nil: "one_at_a_time []"
  by (simp add: one_at_a_time_def live_def)

lemma one_at_a_time_snoc:
  assumes "one_at_a_time tr" and "card (live (tr @ [e])) \<le> 1"
    and "\<And>i config. e = ChartNew i config \<Longrightarrow> live tr = {}"
  shows "one_at_a_time (tr @ [e])"
  unfolding one_at_a_time_def
proof (intro conjI allI impI)
  fix n
  show "card (live (take n (tr @ [e]))) \<le> 1"
  proof (cases "n \<le> length tr")
    case True
    then show ?thesis using assms(1) by (simp add: one_at_a_time_def)
  next
    case False
    then show ?thesis using assms(2) by simp
  qed
next
  fix pre i config post
  assume eq: "tr @ [e] = pre @ ChartNew i config # post"
  show "live pre = {}"
  proof (cases post rule: rev_cases)
    case Nil
    with eq have "tr = pre" "e = ChartNew i config" by simp_all
    then show ?thesis using assms(3) by simp
  next
    case (snoc post' e')
    with eq have "tr = pre @ ChartNew i config # post'" by simp
    then show ?thesis using assms(1) by (auto simp: one_at_a_time_def)
  qed
qed

lemma card_sub_option: "L \<subseteq> set_option b \<Longrightarrow> card L \<le> 1"
proof -
  assume "L \<subseteq> set_option b"
  then have "card L \<le> card (set_option b)"
    by (intro card_mono) (cases b, simp_all)
  also have "\<dots> \<le> 1" by (cases b) simp_all
  finally show ?thesis .
qed

lemma chart_inv_cong:
  "trace s' = trace s \<Longrightarrow> burnupChart s' = burnupChart s \<Longrightarrow> chart_inv s' = chart_inv s"
  by (simp add: chart_inv_def)

lemma chart_inv_quiet:
  assumes "chart_inv s" and "\<And>i config. e \<noteq> ChartNew i config"
    and "live_step e (live (trace s)) \<subseteq> live (trace s)"
    and "trace s' = trace s @ [e]" and "burnupChart s' = burnupChart s"
  shows "chart_inv s'"
proof -
  have sub: "live (trace s @ [e]) \<subseteq> set_option (burnupChart s)"
    using assms(1,3) by (auto simp: chart_inv_def live_snoc)
  have "one_at_a_time (trace s @ [e])"
    using assms(1,2) card_sub_option [OF sub]
    by (intro one_at_a_time_snoc) (auto simp: chart_inv_def)
  with sub show ?thesis
    by (simp add: chart_inv_def assms(4,5))
qed

lemma chart_inv_console: "chart_inv s \<Longrightarrow> chart_inv (console_error m s)"
  by (rule chart_inv_quiet [where e = "ConsoleError m"]) (simp_all add: console_error_def)

lemma chart_inv_clear: "chart_inv s \<Longrightarrow> chart_inv (clear_if_chart s)"
proof (cases "burnupChart s")
  case None
  then show "chart_inv s \<Longrightarrow> chart_inv (clear_if_chart s)"
    by (simp add: clear_if_chart_def)
next
  case (Some c)
  assume "chart_inv s"
  then show "chart_inv (clear_if_chart s)"
    by (rule chart_inv_quiet [where e = "ChartClear c"]) (simp_all add: clear_if_chart_def Some)
qed

lemma chart_inv_destroy:
  assumes "chart_inv s"
  shows "chart_inv (destroy_if_chart s)" and "live (trace (destroy_if_chart s)) = {}"
proof -
  show "chart_inv (destroy_if_chart s)"
  proof (cases "burnupChart s")
    case None
    then show ?thesis using assms by (simp add: destroy_if_chart_def)
  next
    case (Some c)
    show ?thesis
      using assms
      by (rule chart_inv_quiet [where e = "ChartDestroy c"])
        (auto simp: destroy_if_chart_def Some)
  qed
  show "live (trace (destroy_if_chart s)) = {}"
    using assms
    by (cases "burnupChart s") (auto simp: destroy_if_chart_def chart_inv_def live_snoc)
qed

lemma chart_inv_new:
  assumes "chart_inv s" and "live (trace s) = {}"
  shows "chart_inv (new_Chart config s)"
proof -
  have l: "live (trace s @ [ChartNew (chartsCreated s) config]) = {chartsCreated s}"
    by (simp add: live_snoc assms(2))
  have "one_at_a_time (trace s @ [ChartNew (chartsCreated s) config])"
    using assms by (intro one_at_a_time_snoc) (simp_all add: chart_inv_def l)
  then show ?thesis
    by (simp add: chart_inv_def new_Chart_def l)
qed

lemma chart_inv_drawChart: "chart_inv s \<Longrightarrow> chart_inv (snd (drawChart sd u t i s))"
  by (simp add: drawChart_def Let_def chart_inv_console chart_inv_clear chart_inv_new
      chart_inv_destroy split: option.splits)

lemma chart_inv_drawEvPvChart: "chart_inv s \<Longrightarrow> chart_inv (drawEvPvChart sd t s)"
  by (simp add: drawEvPvChart_def chart_inv_console chart_inv_new chart_inv_destroy
      split: option.splits)

lemma chart_inv_populateUserFilter: "chart_inv (populateUserFilter us s) = chart_inv s"
  by (rule chart_inv_cong) (simp_all add: populateUserFilter_frame)

lemma chart_inv_populateSprintFilter: "chart_inv (populateSprintFilter ns s) = chart_inv s"
  by (rule chart_inv_cong) (simp_all add: populateSprintFilter_def Let_def)

lemma chart_inv_updateSprintDashboard:
  "chart_inv s \<Longrightarrow> chart_inv (snd (updateSprintDashboard s))"
  by (simp add: updateSprintDashboard_def Let_def chart_inv_console chart_inv_clear
      chart_inv_drawChart chart_inv_populateUserFilter split: option.splits)

lemma chart_inv_display: "chart_inv (s\<lparr>sprintControls_display := x\<rparr>) = chart_inv s"
  by (rule chart_inv_cong) simp_all

lemma chart_inv_handleViewChange:
  "chart_inv s \<Longrightarrow> chart_inv (snd (handleViewChange s))"
  by (simp add: handleViewChange_def Let_def chart_inv_display chart_inv_drawEvPvChart
      chart_inv_updateSprintDashboard split: option.splits)

lemma chart_inv_init_failed: "chart_inv s \<Longrightarrow> chart_inv (init_failed m s)"
proof -
  assume "chart_inv s"
  then have "chart_inv (console_error (''Error initializing dashboard: '' @ m) s)"
    by (rule chart_inv_console)
  moreover have "chart_inv (init_failed m s)
      = chart_inv (console_error (''Error initializing dashboard: '' @ m) s)"
    by (rule chart_inv_cong) (simp_all add: init_failed_def)
  ultimately show ?thesis by simp
qed

lemma chart_inv_fullData: "chart_inv (s\<lparr>fullData := x\<rparr>) = chart_inv s"
  by (rule chart_inv_cong) simp_all

lemma chart_inv_listening: "chart_inv (s\<lparr>listening := x\<rparr>) = chart_inv s"
  by (rule chart_inv_cong) simp_all

lemma chart_inv_initializeDashboard:
  assumes "chart_inv s"
  shows "chart_inv (initializeDashboard r s)"
proof (cases r)
  case (Rejected m)
  then show ?thesis using assms by (simp add: initializeDashboard_def chart_inv_init_failed)
next
  case (Response ok body)
  show ?thesis
  proof (cases body)
    case (Unparsable m)
    then show ?thesis
      using assms Response by (simp add: initializeDashboard_def chart_inv_init_failed)
  next
    case JsonNull
    then show ?thesis
      using assms Response
      by (simp add: initializeDashboard_def chart_inv_init_failed chart_inv_fullData)
  next
    case (Document d)
    let ?s2 = "populateSprintFilter
        (filter (\<lambda>name. name \<noteq> ''All Time'' \<and> name \<noteq> ''EV/PV'') (map fst d))
        (s\<lparr>fullData := Some d\<rparr>)"
    have "chart_inv ?s2"
      using assms by (simp add: chart_inv_populateSprintFilter chart_inv_fullData)
    then have h: "chart_inv (snd (handleViewChange ?s2))"
      by (rule chart_inv_handleViewChange)
    show ?thesis
      using assms Response Document h
      by (cases "handleViewChange ?s2")
        (simp add: initializeDashboard_def Let_def chart_inv_init_failed chart_inv_fullData
          chart_inv_listening split: option.splits)
  qed
qed

lemma chart_inv_dispatch: "chart_inv s \<Longrightarrow> chart_inv (dispatch ev s)"
proof (cases ev)
  case (ViewSelected v)
  assume "chart_inv s"
  then have "chart_inv (s\<lparr>viewSelector := v\<rparr>)"
    by (simp add: chart_inv_def)
  then show ?thesis
    using ViewSelected by (simp add: dispatch_def Let_def chart_inv_handleViewChange)
next
  case (SprintSelected i)
  assume "chart_inv s"
  then have "chart_inv (s\<lparr>sprintFilter := pick i (sprintFilter s)\<rparr>)"
    by (simp add: chart_inv_def)
  then show ?thesis
    using SprintSelected by (simp add: dispatch_def Let_def chart_inv_updateSprintDashboard)
next
  case (UserSelected i)
  assume "chart_inv s"
  then have "chart_inv (s\<lparr>userFilter := pick i (userFilter s)\<rparr>)"
    by (simp add: chart_inv_def)
  then show ?thesis
    using UserSelected by (simp add: dispatch_def Let_def chart_inv_updateSprintDashboard)
qed

lemma chart_inv_fold: "chart_inv s \<Longrightarrow> chart_inv (fold dispatch evs s)"
  by (induction evs arbitrary: s) (simp_all add: chart_inv_dispatch)

lemma chart_inv_initial: "chart_inv (initial_state view)"
  by (simp add: chart_inv_def initial_state_def one_at_a_time_Nil live_def)

lemma chart_inv_run: "chart_inv (run view r evs)"
  by (simp add: run_def chart_inv_fold chart_inv_initializeDashboard chart_inv_initial)

text \<open>
  C7: at most one chart instance is live at any time. For every page load, whatever the
  fetch delivers and whatever the user then selects, every prefix of the trace of library
  calls has at most one instance constructed and not destroyed, and at each construction
  (by drawChart or by drawEvPvChart) no instance is live: the previous one has been
  destroyed first.
\<close>

theorem single_live_chart:
  "(\<forall>n. card (live (take n (trace (run view r evs)))) \<le> 1)
   \<and> (\<forall>pre i config post.
        trace (run view r evs) = pre @ ChartNew i config # post \<longrightarrow> live pre = {})"
  using chart_inv_run [of view r evs] by (simp add: chart_inv_def one_at_a_time_def)

theorem single_live_chart_witness:
  "trace (run ''sprint'' (Response True (Document ex_data)) [SprintSelected 0])
     = take 2 (trace (run ''sprint'' (Response True (Document ex_data)) [SprintSelected 0]))
       @ ChartNew 1 (configs (trace (run ''sprint'' (Response True (Document ex_data))
                        [SprintSelected 0])) ! 1) # []
   \<and> map without_config (trace (run ''sprint'' (Response True (Document ex_data)) [SprintSelected 0]))
       = [ChartNew 0 JUndefined, ChartDestroy 0, ChartNew 1 JUndefined]
   \<and> live (take 2 (trace (run ''sprint'' (Response True (Document ex_data)) [SprintSelected 0]))) = {}
   \<and> card (live (take 3 (trace (run ''sprint'' (Response True (Document ex_data))
         [SprintSelected 0])))) \<le> 1"
proof -
  let ?tr = "trace (run ''sprint'' (Response True (Document ex_data)) [SprintSelected 0])"
  have e: "?tr = take 2 ?tr @ ChartNew 1 (configs ?tr ! 1) # []"
    by code_simp
  have m: "map without_config ?tr = [ChartNew 0 JUndefined, ChartDestroy 0, ChartNew 1 JUndefined]"
    by code_simp
  from single_live_chart [of "''sprint''" "Response True (Document ex_data)" "[SprintSelected 0]"]
  have a: "\<forall>n. card (live (take n ?tr)) \<le> 1"
    and b: "\<forall>pre i config post. ?tr = pre @ ChartNew i config # post \<longrightarrow> live pre = {}"
    by blast+
  from b e have "live (take 2 ?tr) = {}" by blast
  moreover from a have "card (live (take 3 ?tr)) \<le> 1" by blast
  ultimately show ?thesis using e m by blast
qed

section \<open>Rendering twice\<close>

lemma emitted_self: "emitted s s = []"
  by (simp add: emitted_def)

lemma drawChart_throws_which:
  "lookup_bundle (Some r) u = Some b \<Longrightarrow> dates r = None \<or> earnedHours b = None \<Longrightarrow>
     drawChart (Some r) u t i s =
       (Some (TypeError (if dates r = None then ''dates is undefined''
                         else ''earnedHours is undefined'')), s)"
  by (cases "dates r") (simp_all add: drawChart_def)

lemma drawChart_cases:
  obtains (missing) "lookup_bundle sd u = None"
  | (throws) r b where "sd = Some r" "lookup_bundle (Some r) u = Some b"
      "dates r = None \<or> earnedHours b = None"
  | (draws) r b ds eh where "sd = Some r" "lookup_bundle (Some r) u = Some b"
      "dates r = Some ds" "earnedHours b = Some eh"
proof (cases "lookup_bundle sd u")
  case None
  then show ?thesis by (rule missing)
next
  case (Some b)
  then obtain r where sd: "sd = Some r"
    by (cases sd) (simp_all add: lookup_bundle_def)
  show ?thesis
  proof (cases "dates r = None \<or> earnedHours b = None")
    case True
    with sd Some show ?thesis by (intro throws) simp_all
  next
    case False
    then obtain ds eh where "dates r = Some ds" "earnedHours b = Some eh" by auto
    with sd Some show ?thesis by (intro draws) simp_all
  qed
qed



lemma drawChart_frame:
  "userFilter (snd (drawChart sd u t i s)) = userFilter s
   \<and> sprintFilter (snd (drawChart sd u t i s)) = sprintFilter s
   \<and> fullData (snd (drawChart sd u t i s)) = fullData s"
  by (cases sd u rule: drawChart_cases)
    (simp_all add: drawChart_missing drawChart_throws_which drawChart_draws)

lemma drawChart_outcome:
  "fst (drawChart sd u t i s) = fst (drawChart sd u t i s')
   \<and> configs (emitted s (snd (drawChart sd u t i s)))
     = configs (emitted s' (snd (drawChart sd u t i s')))"
  by (cases sd u rule: drawChart_cases)
    (simp_all add: drawChart_missing drawChart_throws_which drawChart_draws emitted_append
        emitted_self configs_append configs_cleared configs_destroyed)

lemma emitted_trace: "trace s' = trace s \<Longrightarrow> emitted s' x = emitted s x"
  by (simp add: emitted_def)

lemma populateUserFilter_cong:
  "select_value (userFilter s') = select_value (userFilter s) \<Longrightarrow>
     userFilter (populateUserFilter us s') = userFilter (populateUserFilter us s)"
  by (simp add: userFilter_populate)

lemma overall_in_user_options:
  "\<exists>opt \<in> set (user_options us). fst opt = ''overall''"
  "first_index (\<lambda>opt. fst opt = ''overall'') (user_options us) = 0"
  by (simp_all add: user_options_def)

lemma populateUserFilter_value_fixed:
  "userFilter (populateUserFilter us (s\<lparr>userFilter := userFilter (populateUserFilter us s)\<rparr>))
     = userFilter (populateUserFilter us s)"
proof (cases "\<exists>opt \<in> set (user_options us). fst opt = select_value (userFilter s)")
  case True
  then have "select_value (userFilter (populateUserFilter us s)) = select_value (userFilter s)"
    by (simp add: userFilter_populate selected_first_index)
  then show ?thesis
    by (intro populateUserFilter_cong) simp
next
  case False
  then have e: "userFilter (populateUserFilter us s) = \<lparr>options = user_options us, selectedIndex = 0\<rparr>"
    by (simp add: userFilter_populate)
  show ?thesis
    unfolding e
    by (simp add: userFilter_populate user_options_first overall_in_user_options)
qed

lemma populateUserFilter_idem:
  assumes "userFilter s' = userFilter (populateUserFilter us s)"
  shows "userFilter (populateUserFilter us s') = userFilter (populateUserFilter us s)"
proof -
  have "userFilter (populateUserFilter us s')
      = userFilter (populateUserFilter us (s\<lparr>userFilter := userFilter (populateUserFilter us s)\<rparr>))"
    by (rule populateUserFilter_cong) (simp add: assms)
  then show ?thesis
    by (simp add: populateUserFilter_value_fixed)
qed

lemma updateSprintDashboard_empty:
  "select_value (sprintFilter s) = [] \<Longrightarrow>
     updateSprintDashboard s =
       (None, s\<lparr>trace := trace s @ cleared s @ [ConsoleError (sprint_not_found [])]\<rparr>)"
  by (simp add: updateSprintDashboard_def Let_def console_error_def clear_if_chart_def
      cleared_def split: option.splits)

lemma updateSprintDashboard_null:
  "select_value (sprintFilter s) \<noteq> [] \<Longrightarrow> fullData s = None \<Longrightarrow>
     updateSprintDashboard s = (Some (TypeError ''state.fullData is null''), s)"
  by (simp add: updateSprintDashboard_def Let_def)

lemma cleared_trace: "cleared (s\<lparr>trace := x\<rparr>) = cleared s"
  by (simp add: cleared_def)

lemma emitted_twice:
  "emitted (s\<lparr>trace := trace s @ es\<rparr>) (s\<lparr>trace := trace s @ es @ es'\<rparr>) = es'"
  by (simp add: emitted_def)

lemma burnup_title_cong:
  "sprintFilter a = sprintFilter b \<Longrightarrow> userFilter a = userFilter b \<Longrightarrow>
     burnup_title a = burnup_title b"
  by (simp add: burnup_title_def)

text \<open>
  C9: running updateSprintDashboard a second time, with the document and the selections
  left as the first run left them, passes the chart library the same configuration
  (labels, datasets and options) as the first run, throws exactly when the first run
  did, and leaves the user selector as the first run left it; the first run itself does
  not change the sprint selector or the document.
\<close>

theorem render_idempotent:
  "configs (emitted (snd (updateSprintDashboard s))
      (snd (updateSprintDashboard (snd (updateSprintDashboard s)))))
     = configs (emitted s (snd (updateSprintDashboard s)))
   \<and> fst (updateSprintDashboard (snd (updateSprintDashboard s))) = fst (updateSprintDashboard s)
   \<and> userFilter (snd (updateSprintDashboard (snd (updateSprintDashboard s))))
     = userFilter (snd (updateSprintDashboard s))
   \<and> sprintFilter (snd (updateSprintDashboard s)) = sprintFilter s
   \<and> fullData (snd (updateSprintDashboard s)) = fullData s"
proof (cases "select_value (sprintFilter s) = []")
  case True
  let ?s1 = "s\<lparr>trace := trace s @ cleared s @ [ConsoleError (sprint_not_found [])]\<rparr>"
  have 1: "updateSprintDashboard s = (None, ?s1)"
    by (rule updateSprintDashboard_empty [OF True])
  have "select_value (sprintFilter ?s1) = []" using True by simp
  from updateSprintDashboard_empty [OF this]
  have 2: "updateSprintDashboard ?s1 =
      (None, s\<lparr>trace := trace s @ (cleared s @ [ConsoleError (sprint_not_found [])])
          @ (cleared s @ [ConsoleError (sprint_not_found [])])\<rparr>)"
    by (simp add: cleared_trace)
  show ?thesis
    unfolding 1 2 snd_conv fst_conv emitted_twice emitted_append
    by (simp add: configs_append configs_cleared)
next
  case nonempty: False
  show ?thesis
  proof (cases "fullData s")
    case None
    from updateSprintDashboard_null [OF nonempty None] show ?thesis
      by (simp add: emitted_self)
  next
    case (Some d)
    show ?thesis
    proof (cases "map_of d (select_value (sprintFilter s))")
      case None
      let ?s1 = "s\<lparr>trace := trace s @ cleared s
          @ [ConsoleError (sprint_not_found (select_value (sprintFilter s)))]\<rparr>"
      have 1: "updateSprintDashboard s = (None, ?s1)"
        by (rule updateSprintDashboard_missing [OF Some None])
      have "fullData ?s1 = Some d" "map_of d (select_value (sprintFilter ?s1)) = None"
        using Some None by simp_all
      from updateSprintDashboard_missing [OF this]
      have 2: "updateSprintDashboard ?s1 =
          (None, s\<lparr>trace := trace s
              @ (cleared s @ [ConsoleError (sprint_not_found (select_value (sprintFilter s)))])
              @ (cleared s @ [ConsoleError (sprint_not_found (select_value (sprintFilter s)))])\<rparr>)"
        by (simp add: cleared_trace)
      show ?thesis
        unfolding 1 2 snd_conv fst_conv emitted_twice emitted_append
        by (simp add: configs_append configs_cleared)
    next
      case found: (Some r)
      let ?p1 = "populateUserFilter (users r) s"
      let ?u = "select_value (userFilter ?p1)"
      let ?t = "burnup_title ?p1"
      let ?s1 = "snd (drawChart (Some r) ?u ?t True ?p1)"
      let ?p2 = "populateUserFilter (users r) ?s1"
      have 1: "updateSprintDashboard s = drawChart (Some r) ?u ?t True ?p1"
        by (rule updateSprintDashboard_found [OF Some found nonempty])
      have f1: "fullData ?s1 = Some d" and sf1: "sprintFilter ?s1 = sprintFilter s"
        and uf1: "userFilter ?s1 = userFilter ?p1"
        by (simp_all add: drawChart_frame populateUserFilter_frame Some)
      have uf2: "userFilter ?p2 = userFilter ?p1"
        by (rule populateUserFilter_idem [OF uf1])
      have t2: "burnup_title ?p2 = ?t"
        by (rule burnup_title_cong) (simp_all only: uf2 populateUserFilter_frame sf1)
      have 2: "updateSprintDashboard ?s1 = drawChart (Some r) ?u ?t True ?p2"
        using updateSprintDashboard_found [of ?s1 d r] f1 sf1 found nonempty
        by (simp add: uf2 t2)
      have c: "configs (emitted ?s1 (snd (drawChart (Some r) ?u ?t True ?p2)))
          = configs (emitted s ?s1)"
      proof -
        have "emitted ?s1 (snd (drawChart (Some r) ?u ?t True ?p2))
            = emitted ?p2 (snd (drawChart (Some r) ?u ?t True ?p2))"
          by (simp add: emitted_def populateUserFilter_frame)
        moreover have "emitted s ?s1 = emitted ?p1 ?s1"
          by (simp add: emitted_def populateUserFilter_frame)
        ultimately show ?thesis
          using drawChart_outcome [of "Some r" ?u ?t True ?p2 ?p1] by simp
      qed
      show ?thesis
        unfolding 1 2
        using c drawChart_outcome [of "Some r" ?u ?t True ?p2 ?p1]
        by (simp add: drawChart_frame uf2 populateUserFilter_frame)
    qed
  qed
qed

theorem render_idempotent_witness:
  "configs (emitted ex_state_loaded (snd (updateSprintDashboard ex_state_loaded)))
     = [burnup_config [''05-01'', ''05-02'', ''05-03'', ''05-04'', ''05-05''] ex_bundle
          ''Burn-Up: Sprint 10 - Overall Team'' True]
   \<and> configs (emitted (snd (updateSprintDashboard ex_state_loaded))
        (snd (updateSprintDashboard (snd (updateSprintDashboard ex_state_loaded)))))
     = [burnup_config [''05-01'', ''05-02'', ''05-03'', ''05-04'', ''05-05''] ex_bundle
          ''Burn-Up: Sprint 10 - Overall Team'' True]"
proof -
  have "configs (emitted ex_state_loaded (snd (updateSprintDashboard ex_state_loaded)))
     = [burnup_config [''05-01'', ''05-02'', ''05-03'', ''05-04'', ''05-05''] ex_bundle
          ''Burn-Up: Sprint 10 - Overall Team'' True]"
    by code_simp
  with render_idempotent [of ex_state_loaded] show ?thesis
    by simp
qed

section \<open>The suggested top of the y axis\<close>

lemma math_max0_Max: "math_max0 vs = Max (insert 0 (set vs))"
proof -
  have step: "Max (insert (max x a) (set vs)) = max x (Max (insert a (set vs)))"
    for x a :: num and vs
    by (cases "set vs = {}") (simp_all add: max.assoc)
  have "fold max vs a = Max (insert a (set vs))" for a :: num
    by (induction vs arbitrary: a) (simp_all add: step insert_commute)
  then show ?thesis by (simp add: math_max0_def)
qed

lemma yAxisTop_least_multiple:
  fixes p e :: hours_series
  defines "m \<equiv> max (math_max0 (non_null p)) (math_max0 (non_null e))"
  shows "yAxisTop_of p e = of_int \<lceil>m * (105 / 100) / 50\<rceil> * 50"
    and "m * (105 / 100) \<le> yAxisTop_of p e"
    and "m * (105 / 100) \<le> of_int k * 50 \<Longrightarrow> yAxisTop_of p e \<le> of_int k * 50"
proof -
  define x where "x = m * (105 / 100) / 50"
  have mx: "m * (105 / 100) = x * 50"
    by (simp add: x_def)
  show y: "yAxisTop_of p e = of_int \<lceil>m * (105 / 100) / 50\<rceil> * 50"
    by (simp add: yAxisTop_of_def m_def Let_def)
  have y': "yAxisTop_of p e = of_int \<lceil>x\<rceil> * 50"
    unfolding y x_def ..
  have "x \<le> of_int \<lceil>x\<rceil>" by (rule le_of_int_ceiling)
  then have "x * 50 \<le> of_int \<lceil>x\<rceil> * 50" by (rule mult_right_mono) simp
  then show "m * (105 / 100) \<le> yAxisTop_of p e"
    unfolding mx y' .
  assume "m * (105 / 100) \<le> of_int k * 50"
  then have "x * 50 \<le> of_int k * 50" unfolding mx .
  then have "x \<le> of_int k" by simp
  then have "\<lceil>x\<rceil> \<le> k" by (simp add: ceiling_le)
  then have "(of_int \<lceil>x\<rceil> :: rat) \<le> of_int k" by simp
  then have "(of_int \<lceil>x\<rceil> :: rat) * 50 \<le> of_int k * 50" by (rule mult_right_mono) simp
  then show "yAxisTop_of p e \<le> of_int k * 50"
    unfolding y' .
qed

text \<open>
  C4: drawChart computes yAxisTop, the least multiple of 50 that is at least 1.05 times
  the larger maximum (lemma \<open>yAxisTop_least_multiple\<close>), and then never uses it: the
  configuration it builds has a y scale with \<open>min\<close> 0 and neither \<open>max\<close> nor
  \<open>suggestedMax\<close>, whatever the data. On the sample document yAxisTop is 150 and the
  y scale handed to the chart library carries no upper bound.
\<close>

theorem y_axis_bound_not_supplied:
  "jprop ''max'' (y_scale (burnup_config ds b t i)) = JUndefined
   \<and> jprop ''suggestedMax'' (y_scale (burnup_config ds b t i)) = JUndefined
   \<and> jprop ''min'' (y_scale (burnup_config ds b t i)) = JNum 0
   \<and> yAxisTop_of [Some 100, Some 100, Some 100, Some 100, Some 100]
        [Some 0, None, Some 30, Some 60, Some 90] = 150
   \<and> map y_scale (configs (trace ex_state_loaded))
       = [JObj [(''type'', JStr ''linear''), (''position'', JStr ''left''), (''min'', JNum 0),
                (''title'', JObj [(''display'', JBool True), (''text'', JStr ''Hours''),
                   (''color'', JStr ''#d1d5db''),
                   (''font'', JObj [(''size'', JNum 14), (''weight'', JStr ''bold'')])]),
                (''ticks'', JObj [(''color'', JStr ''#9ca3af'')]),
                (''grid'', JObj [(''color'', JStr ''rgba(255, 255, 255, 0.1)'')])]]"
proof -
  have g: "y_scale (burnup_config ds b t i)
      = JObj [(''type'', JStr ''linear''), (''position'', JStr ''left''), (''min'', JNum 0),
                (''title'', JObj [(''display'', JBool True), (''text'', JStr ''Hours''),
                   (''color'', JStr ''#d1d5db''),
                   (''font'', JObj [(''size'', JNum 14), (''weight'', JStr ''bold'')])]),
                (''ticks'', JObj [(''color'', JStr ''#9ca3af'')]),
                (''grid'', JObj [(''color'', JStr ''rgba(255, 255, 255, 0.1)'')])]"
    by (simp add: y_scale_def burnup_config_def chartOptions_def)
  have v: "yAxisTop_of [Some 100, Some 100, Some 100, Some 100, Some 100]
        [Some 0, None, Some 30, Some 60, Some 90] = 150"
    by code_simp
  have c: "map y_scale (configs (trace ex_state_loaded))
       = [JObj [(''type'', JStr ''linear''), (''position'', JStr ''left''), (''min'', JNum 0),
                (''title'', JObj [(''display'', JBool True), (''text'', JStr ''Hours''),
                   (''color'', JStr ''#d1d5db''),
                   (''font'', JObj [(''size'', JNum 14), (''weight'', JStr ''bold'')])]),
                (''ticks'', JObj [(''color'', JStr ''#9ca3af'')]),
                (''grid'', JObj [(''color'', JStr ''rgba(255, 255, 255, 0.1)'')])]]"
    by code_simp
  show ?thesis
    unfolding g using v c by simp
qed

end
